theory Spec2Isabelle
  imports Main "HOL-Library.Sublist"
begin

section \<open>The database schema\<close>

text \<open>
  The tables of the migration, one record per row type. A \<open>uuid\<close> is a natural number
  and a \<open>timestamptz\<close> a natural number of clock ticks. A column declared
  \<open>NOT NULL\<close> (or \<open>PRIMARY KEY\<close>) has its plain type, a nullable column an
  \<open>option\<close>. Text is a list of single-byte characters, so \<open>length\<close> and
  \<open>lower\<close> are those of an ASCII-encoded database. Row-level security is outside the
  model: the trigger function is taken to see and write every row.
\<close>

type_synonym uuid = nat
type_synonym timestamptz = nat

record widget =
  w_id :: uuid
  w_user_id :: uuid
  primary_color :: "string option"
  header_text :: "string option"
  welcome_message :: "string option"
  logo_url :: "string option"

record auto_reply =
  ar_id :: uuid
  ar_user_id :: uuid
  ar_widget_id :: uuid
  keyword :: string
  response :: string
  ar_created_at :: timestamptz

record chat =
  c_id :: uuid
  c_widget_id :: uuid
  visitor_name :: "string option"
  visitor_email :: "string option"
  visitor_page :: "string option"
  c_created_at :: timestamptz
  updated_at :: timestamptz

record chat_message =
  msg_id :: uuid
  chat_id :: uuid
  widget_id :: uuid
  content :: string
  sender_type :: string
  is_auto_reply :: "bool option"
  auto_reply_keyword :: "string option"
  created_at :: timestamptz

record database =
  widgets :: "widget list"
  auto_replies :: "auto_reply list"
  chats :: "chat list"
  chat_messages :: "chat_message list"

section \<open>The matching query of \<open>handle_auto_reply\<close>\<close>

text \<open>SQL \<open>lower\<close> on one character: the letters A to Z move to a to z.\<close>

definition lower_char :: "char \<Rightarrow> char" where
  "lower_char c =
     (case map_of (zip ''ABCDEFGHIJKLMNOPQRSTUVWXYZ'' ''abcdefghijklmnopqrstuvwxyz'') c of
        None \<Rightarrow> c
      | Some l \<Rightarrow> l)"

definition lower :: "string \<Rightarrow> string" where
  "lower s = map lower_char s"

text \<open>
  SQL \<open>position(sub in s)\<close>: the 1-based index of the first occurrence of \<open>sub\<close> in
  \<open>s\<close>, and 0 when there is none. The empty string occurs at index 1 of every string.
\<close>

fun position_from :: "nat \<Rightarrow> string \<Rightarrow> string \<Rightarrow> nat" where
  "position_from i sub [] = (if sub = [] then i else 0)"
| "position_from i sub (c # cs) =
     (if prefix sub (c # cs) then i else position_from (Suc i) sub cs)"

definition position :: "string \<Rightarrow> string \<Rightarrow> nat" where
  "position sub s = position_from 1 sub s"

text \<open>
  The \<open>WHERE\<close> clause:
  \<^verbatim>\<open>widget_id = NEW.widget_id AND position(lower(keyword) in lower(NEW.content)) > 0\<close>
\<close>

definition where_clause :: "chat_message \<Rightarrow> auto_reply \<Rightarrow> bool" where
  "where_clause NEW r \<longleftrightarrow>
     ar_widget_id r = widget_id NEW \<and> position (lower (keyword r)) (lower (content NEW)) > 0"

definition matching_rows :: "auto_reply list \<Rightarrow> chat_message \<Rightarrow> auto_reply list" where
  "matching_rows tbl NEW = filter (where_clause NEW) tbl"

text \<open>
  \<^verbatim>\<open>ORDER BY length(keyword) DESC LIMIT 1\<close> over the rows that passed the
  \<open>WHERE\<close> clause. The query names no second sort key, so SQL leaves the order of rows
  with equal keyword length open, and with it the row that \<open>LIMIT 1\<close> keeps.
  \<open>order_by_limit_1 rows res\<close> says that \<open>res\<close> is a result the query may deliver:
  no row when there is none, otherwise any row whose keyword is at least as long as every
  other row's.
\<close>

definition order_by_limit_1 :: "auto_reply list \<Rightarrow> auto_reply option \<Rightarrow> bool" where
  "order_by_limit_1 rows res =
     (case res of
        None \<Rightarrow> rows = []
      | Some r \<Rightarrow> r \<in> set rows \<and> (\<forall>r' \<in> set rows. length (keyword r') \<le> length (keyword r)))"

text \<open>
  \<^verbatim>\<open>SELECT * INTO matching_reply FROM auto_replies WHERE ... ORDER BY ... LIMIT 1\<close>:
  \<open>None\<close> stands for the all-null row that \<open>SELECT INTO\<close> assigns when the query
  delivers no row (its \<open>id\<close> is then null; \<open>id\<close> is the primary key, so it is null in
  no other case).
\<close>

definition select_matching_reply ::
  "auto_reply list \<Rightarrow> chat_message \<Rightarrow> auto_reply option \<Rightarrow> bool" where
  "select_matching_reply tbl NEW res = order_by_limit_1 (matching_rows tbl NEW) res"

section \<open>Inserting a message: the row trigger \<open>trigger_auto_reply\<close>\<close>

text \<open>
  A statement either completes and leaves a new database state, or raises: then the
  transaction is rolled back and nothing of the statement is kept.
\<close>

datatype error = ConstraintViolation | StatementFailed

text \<open>
  The column list of an \<^verbatim>\<open>INSERT INTO chat_messages\<close> as the callers write it. \<open>id\<close>
  and \<open>created_at\<close> are never given and take their defaults \<open>gen_random_uuid()\<close> and
  \<open>now()\<close>; \<open>auto_reply_keyword\<close> is \<open>None\<close> when the caller leaves it out. The
  widget may send a null \<open>chat_id\<close> (it has no chat yet).
\<close>

record message_values =
  v_chat_id :: "uuid option"
  v_widget_id :: uuid
  v_content :: string
  v_sender_type :: string
  v_is_auto_reply :: bool
  v_auto_reply_keyword :: "string option"

text \<open>\<open>chat_id uuid REFERENCES chats NOT NULL\<close> and \<open>widget_id uuid REFERENCES widgets NOT NULL\<close>.\<close>

definition constraints_ok :: "database \<Rightarrow> message_values \<Rightarrow> bool" where
  "constraints_ok db v \<longleftrightarrow>
     (case v_chat_id v of
        None \<Rightarrow> False
      | Some cid \<Rightarrow> (\<exists>c \<in> set (chats db). c_id c = cid)) \<and>
     (\<exists>w \<in> set (widgets db). w_id w = v_widget_id v)"

definition new_row :: "uuid \<Rightarrow> timestamptz \<Rightarrow> uuid \<Rightarrow> message_values \<Rightarrow> chat_message" where
  "new_row u now cid v =
     \<lparr>msg_id = u, chat_id = cid, widget_id = v_widget_id v, content = v_content v,
      sender_type = v_sender_type v, is_auto_reply = Some (v_is_auto_reply v),
      auto_reply_keyword = v_auto_reply_keyword v, created_at = now\<rparr>"

text \<open>The \<open>VALUES\<close> list of the trigger's own \<open>INSERT\<close>.\<close>

definition auto_reply_values :: "chat_message \<Rightarrow> auto_reply \<Rightarrow> message_values" where
  "auto_reply_values NEW matching_reply =
     \<lparr>v_chat_id = Some (chat_id NEW), v_widget_id = widget_id NEW,
      v_content = response matching_reply, v_sender_type = ''business'',
      v_is_auto_reply = True, v_auto_reply_keyword = Some (keyword matching_reply)\<rparr>"

text \<open>
  \<open>update_updated_at_column\<close>, the \<open>BEFORE UPDATE\<close> row trigger of \<open>chats\<close>, and
  \<^verbatim>\<open>UPDATE chats SET updated_at = now() WHERE id = NEW.chat_id\<close>, which fires it on each
  row it changes. \<open>now()\<close> is the start time of the transaction, the same in every
  statement of it.
\<close>

definition update_updated_at_column :: "timestamptz \<Rightarrow> chat \<Rightarrow> chat" where
  "update_updated_at_column now NEW = NEW\<lparr>updated_at := now\<rparr>"

definition update_chats_updated_at :: "timestamptz \<Rightarrow> uuid \<Rightarrow> database \<Rightarrow> database" where
  "update_chats_updated_at now cid db =
     db\<lparr>chats :=
          map (\<lambda>c. if c_id c = cid then update_updated_at_column now (c\<lparr>updated_at := now\<rparr>)
                    else c) (chats db)\<rparr>"

text \<open>\<open>row_of tbl r\<close>: \<open>r\<close> is a row of the table \<open>tbl\<close>, as the \<open>FROM\<close> clause delivers it.\<close>

inductive row_of :: "'a list \<Rightarrow> 'a \<Rightarrow> bool" where
  first_row: "row_of (r # tbl) r"
| later_row: "row_of tbl r \<Longrightarrow> row_of (r' # tbl) r"

code_pred (modes: i \<Rightarrow> o \<Rightarrow> bool, i \<Rightarrow> i \<Rightarrow> bool) row_of .

text \<open>
  \<open>insert_chat_message now ids db v out\<close>: the statement \<^verbatim>\<open>INSERT INTO chat_messages\<close>
  with the values \<open>v\<close>, run at time \<open>now\<close> on \<open>db\<close>, may end as \<open>out\<close>; \<open>ids\<close> are
  the values that \<open>gen_random_uuid()\<close> delivers during the statement, in this order. A
  row that breaks \<open>NOT NULL\<close>, a foreign key or the primary key is refused.
  \<open>trigger_auto_reply\<close> is \<open>AFTER INSERT ... FOR EACH ROW\<close>, so \<open>handle_auto_reply\<close>
  runs inside the statement, on the database that already holds the new row, and for the
  row that the function itself inserts as well. The function has no \<open>EXCEPTION\<close> block:
  an error raised by one of its statements (rule \<open>statement_failed\<close>: the store is
  unavailable, a time limit is hit) leaves the function and aborts the \<open>INSERT\<close> that
  fired the trigger.
  \<^verbatim>\<open>SELECT user_id INTO widget_owner_id\<close> has no effect (the variable is never read) and
  is left out.
\<close>

inductive
  insert_chat_message ::
    "timestamptz \<Rightarrow> uuid list \<Rightarrow> database \<Rightarrow> message_values \<Rightarrow> error + database \<Rightarrow> bool"
  and handle_auto_reply ::
    "timestamptz \<Rightarrow> uuid list \<Rightarrow> database \<Rightarrow> chat_message \<Rightarrow> error + database \<Rightarrow> bool"
where
  violation:
    "\<not> constraints_ok db v \<or> (\<exists>m \<in> set (chat_messages db). msg_id m = u) \<Longrightarrow>
     insert_chat_message now (u # ids) db v (Inl ConstraintViolation)"
| inserted:
    "constraints_ok db v \<Longrightarrow> v_chat_id v = Some cid \<Longrightarrow>
     \<forall>m \<in> set (chat_messages db). msg_id m \<noteq> u \<Longrightarrow>
     handle_auto_reply now ids (db\<lparr>chat_messages := chat_messages db @ [new_row u now cid v]\<rparr>)
       (new_row u now cid v) out \<Longrightarrow>
     insert_chat_message now (u # ids) db v out"
| not_visitor:
    "sender_type NEW \<noteq> ''visitor'' \<Longrightarrow> handle_auto_reply now ids db NEW (Inr db)"
| statement_failed:
    "sender_type NEW = ''visitor'' \<Longrightarrow> handle_auto_reply now ids db NEW (Inl StatementFailed)"
| not_found:
    "sender_type NEW = ''visitor'' \<Longrightarrow>
     select_matching_reply (auto_replies db) NEW None \<Longrightarrow>
     handle_auto_reply now ids db NEW (Inr db)"
| found:
    "sender_type NEW = ''visitor'' \<Longrightarrow>
     row_of (auto_replies db) matching_reply \<Longrightarrow>
     select_matching_reply (auto_replies db) NEW (Some matching_reply) \<Longrightarrow>
     insert_chat_message now ids db (auto_reply_values NEW matching_reply) (Inr db1) \<Longrightarrow>
     handle_auto_reply now ids db NEW (Inr (update_chats_updated_at now (chat_id NEW) db1))"
| found_insert_failed:
    "sender_type NEW = ''visitor'' \<Longrightarrow>
     row_of (auto_replies db) matching_reply \<Longrightarrow>
     select_matching_reply (auto_replies db) NEW (Some matching_reply) \<Longrightarrow>
     insert_chat_message now ids db (auto_reply_values NEW matching_reply) (Inl e) \<Longrightarrow>
     handle_auto_reply now ids db NEW (Inl e)"

code_pred (modes: i \<Rightarrow> i \<Rightarrow> i \<Rightarrow> i \<Rightarrow> o \<Rightarrow> bool) insert_chat_message .

section \<open>The widget: \<open>BusinessChatPlugin\<close>\<close>

text \<open>
  What the clients send to the backend. A client function returns its state with the
  requests it has issued appended to the outbox; what the backend answered is an argument
  of the function (\<open>Inl\<close>: the \<open>error\<close> member of the answer was set).
\<close>

record chat_values =
  cv_widget_id :: uuid
  cv_visitor_page :: string
  cv_visitor_name :: "string option"
  cv_visitor_email :: "string option"

datatype request =
    InsertChat chat_values
  | InsertMessage message_values
  | UpdateChatVisitor "uuid option" string string
  | UpdateChatUpdatedAt uuid timestamptz
  | SelectMessages uuid

record settings =
  primaryColor :: string
  headerText :: string
  welcomeMessage :: string
  logoUrl :: "string option"

text \<open>
  An element of \<open>this.messages\<close>: an object built by the widget has no \<open>id\<close> until the
  backend has answered and never an \<open>auto_reply_keyword\<close>; a row received from the
  backend has all its columns.
\<close>

record widget_message =
  m_id :: "uuid option"
  m_content :: string
  m_sender_type :: string
  m_is_auto_reply :: "bool option"
  m_auto_reply_keyword :: "string option"
  m_created_at :: timestamptz

record local_storage =
  businessChatId :: "uuid option"
  businessChatName :: "string option"
  businessChatEmail :: "string option"
  businessChatCount :: "nat option"

text \<open>
  The fields of the class, then what the code does to its surroundings: \<open>pageUrl\<close> is
  \<open>window.location.href\<close>, \<open>prompts\<close> counts the calls of \<open>showUserInfoForm\<close> that
  \<open>sendMessage\<close> has scheduled, \<open>forms\<close> the identification forms now in the page,
  \<open>subscriptions\<close> the chats whose message channel has been subscribed to.
\<close>

record plugin =
  widgetId :: uuid
  chatId :: "uuid option"
  messages :: "widget_message list"
  userInfo_name :: "string option"
  userInfo_email :: "string option"
  userInfo_chatCount :: nat
  settings :: settings
  isOpen :: bool
  isInitialized :: bool
  localStorage :: local_storage
  pageUrl :: string
  outbox :: "request list"
  prompts :: nat
  forms :: nat
  subscriptions :: "uuid list"

text \<open>JavaScript: a string is falsy when it is null or empty; \<open>a || b\<close>; \<open>trim\<close>.\<close>

definition truthy :: "string option \<Rightarrow> bool" where
  "truthy s \<longleftrightarrow> (case s of None \<Rightarrow> False | Some t \<Rightarrow> t \<noteq> [])"

definition or_default :: "string option \<Rightarrow> string \<Rightarrow> string" where
  "or_default s d = (case s of None \<Rightarrow> d | Some t \<Rightarrow> if t = [] then d else t)"

definition is_space :: "char \<Rightarrow> bool" where
  "is_space c \<longleftrightarrow> c \<in> set [CHR '' '', CHR 0x09, CHR 0x0A, CHR 0x0B, CHR 0x0C, CHR 0x0D]"

definition trim :: "string \<Rightarrow> string" where
  "trim s = rev (dropWhile is_space (rev (dropWhile is_space s)))"

definition default_settings :: settings where
  "default_settings =
     \<lparr>primaryColor = ''#0284c7'', headerText = ''Chat with us'',
      welcomeMessage = ''Hello! How can we help you today?'', logoUrl = None\<rparr>"

text \<open>
  \<open>fetchWidgetSettings\<close>: the answer of \<^verbatim>\<open>from('widgets').select('*').eq('id', ...).single()\<close>
  is a row, or an error, which the function throws and catches itself.
\<close>

definition fetchWidgetSettings :: "plugin \<Rightarrow> error + widget \<Rightarrow> plugin" where
  "fetchWidgetSettings p answer =
     (case answer of
        Inr data \<Rightarrow>
          p\<lparr>settings :=
              \<lparr>primaryColor = or_default (primary_color data) ''#0284c7'',
               headerText = or_default (header_text data) ''Chat with us'',
               welcomeMessage =
                 or_default (welcome_message data) ''Hello! How can we help you today?'',
               logoUrl = (if truthy (logo_url data) then logo_url data else None)\<rparr>\<rparr>
      | Inl e \<Rightarrow>
          p\<lparr>settings :=
              \<lparr>primaryColor = ''#0284c7'', headerText = ''Chat with us'',
               welcomeMessage = ''Hello! How can we help you today?'', logoUrl = None\<rparr>\<rparr>)"

definition saveChatHistory :: "plugin \<Rightarrow> plugin" where
  "saveChatHistory p =
     p\<lparr>localStorage := (localStorage p)\<lparr>businessChatCount := Some (userInfo_chatCount p)\<rparr>\<rparr>"

definition addMessage :: "plugin \<Rightarrow> widget_message \<Rightarrow> plugin" where
  "addMessage p message = saveChatHistory (p\<lparr>messages := messages p @ [message]\<rparr>)"

definition subscribeToMessages :: "plugin \<Rightarrow> plugin" where
  "subscribeToMessages p =
     (case chatId p of
        None \<Rightarrow> p
      | Some c \<Rightarrow> p\<lparr>subscriptions := subscriptions p @ [c]\<rparr>)"

text \<open>The row of an \<open>INSERT\<close> event, \<open>payload.new\<close>, as a message object.\<close>

definition payload_new :: "chat_message \<Rightarrow> widget_message" where
  "payload_new row =
     \<lparr>m_id = Some (msg_id row), m_content = content row, m_sender_type = sender_type row,
      m_is_auto_reply = is_auto_reply row, m_auto_reply_keyword = auto_reply_keyword row,
      m_created_at = created_at row\<rparr>"

text \<open>The callback that \<open>subscribeToMessages\<close> registers for \<open>INSERT\<close> events.\<close>

definition on_insert :: "plugin \<Rightarrow> chat_message \<Rightarrow> plugin" where
  "on_insert p row =
     (if sender_type row = ''business'' \<and>
         \<not> (\<exists>m \<in> set (messages p). m_id m = Some (msg_id row))
      then addMessage p (payload_new row)
      else p)"

text \<open>\<open>loadChatHistory\<close>, and the callback of its query for the messages of the chat.\<close>

definition loadChatHistory :: "plugin \<Rightarrow> plugin" where
  "loadChatHistory p =
     (let p1 = p\<lparr>chatId := businessChatId (localStorage p),
                  userInfo_name := businessChatName (localStorage p),
                  userInfo_email := businessChatEmail (localStorage p),
                  userInfo_chatCount :=
                    (case businessChatCount (localStorage p) of None \<Rightarrow> 0 | Some n \<Rightarrow> n)\<rparr>
      in case chatId p1 of
           None \<Rightarrow> p1
         | Some c \<Rightarrow> (subscribeToMessages p1)\<lparr>outbox := outbox p1 @ [SelectMessages c]\<rparr>)"

definition on_history_loaded :: "plugin \<Rightarrow> error + chat_message list \<Rightarrow> plugin" where
  "on_history_loaded p answer =
     (case answer of
        Inl e \<Rightarrow> p
      | Inr data \<Rightarrow> foldl addMessage (p\<lparr>messages := []\<rparr>) (map payload_new data))"

text \<open>
  \<open>init\<close>: \<open>script_loaded\<close> tells whether \<open>loadScript\<close> resolved. Building the page
  elements and registering the listeners change nothing that is modelled here.
\<close>

definition init :: "plugin \<Rightarrow> bool \<Rightarrow> error + widget \<Rightarrow> plugin" where
  "init p script_loaded answer =
     (if \<not> script_loaded then p
      else (loadChatHistory (fetchWidgetSettings p answer))\<lparr>isInitialized := True\<rparr>)"

text \<open>
  \<open>createChat\<close>: \<open>answer\<close> is the backend's answer to the insert into \<open>chats\<close>. The
  answer to the insert of the welcome message is not looked at.
\<close>

definition createChat :: "plugin \<Rightarrow> error + uuid \<Rightarrow> plugin" where
  "createChat p answer =
     (let p1 = p\<lparr>outbox := outbox p @
                  [InsertChat \<lparr>cv_widget_id = widgetId p, cv_visitor_page = pageUrl p,
                               cv_visitor_name = userInfo_name p,
                               cv_visitor_email = userInfo_email p\<rparr>]\<rparr>
      in case answer of
           Inl e \<Rightarrow> p1
         | Inr data_id \<Rightarrow>
             (let p2 = p1\<lparr>chatId := Some data_id\<rparr>;
                  p3 = (if messages p2 \<noteq> []
                        then p2\<lparr>outbox := outbox p2 @
                               [InsertMessage
                                  \<lparr>v_chat_id = chatId p2, v_widget_id = widgetId p2,
                                   v_content = welcomeMessage (settings p2),
                                   v_sender_type = ''business'', v_is_auto_reply = False,
                                   v_auto_reply_keyword = None\<rparr>]\<rparr>
                        else p2);
                  p4 = subscribeToMessages p3
              in p4\<lparr>localStorage := (localStorage p4)\<lparr>businessChatId := chatId p4\<rparr>\<rparr>))"

text \<open>
  \<open>toggleWidget\<close>: \<open>forceState\<close> is \<open>None\<close> when the argument is left out; \<open>now\<close> is the
  client's clock.
\<close>

definition toggleWidget :: "plugin \<Rightarrow> bool option \<Rightarrow> timestamptz \<Rightarrow> error + uuid \<Rightarrow> plugin" where
  "toggleWidget p forceState now answer =
     (let newState = (case forceState of None \<Rightarrow> \<not> isOpen p | Some b \<Rightarrow> b)
      in if newState then
           (let p1 = p\<lparr>isOpen := True\<rparr>
            in if messages p1 = [] then
                 (let p2 = addMessage p1
                             \<lparr>m_id = None, m_content = welcomeMessage (settings p1),
                              m_sender_type = ''business'', m_is_auto_reply = Some False,
                              m_auto_reply_keyword = None, m_created_at = now\<rparr>
                  in if chatId p2 = None then createChat p2 answer else p2)
               else p1)
         else p\<lparr>isOpen := False\<rparr>)"

text \<open>
  \<open>sendMessage\<close>: \<open>text\<close> is the value of the input field, \<open>chat_answer\<close> the answer to
  \<open>createChat\<close> (read only when there is no chat yet), \<open>answer\<close> the answer to the insert
  of the message: the id of the stored row, or an error. Nothing else reaches the plugin
  between the two, so \<open>messageObj\<close> is the last element of \<open>messages\<close> when its id is
  set. A prompt is one call of \<open>showUserInfoForm\<close> by the timer.
\<close>

definition sendMessage ::
  "plugin \<Rightarrow> string \<Rightarrow> timestamptz \<Rightarrow> error + uuid \<Rightarrow> error + uuid \<Rightarrow> plugin" where
  "sendMessage p text now chat_answer answer =
     (let content = trim text
      in if content = [] then p
         else
           (let p1 = (if chatId p = None then createChat p chat_answer else p);
                messageObj = \<lparr>m_id = None, m_content = content, m_sender_type = ''visitor'',
                              m_is_auto_reply = Some False, m_auto_reply_keyword = None,
                              m_created_at = now\<rparr>;
                p2 = addMessage p1 messageObj;
                p3 = p2\<lparr>outbox := outbox p2 @
                          [InsertMessage
                             \<lparr>v_chat_id = chatId p2, v_widget_id = widgetId p2,
                              v_content = content, v_sender_type = ''visitor'',
                              v_is_auto_reply = False, v_auto_reply_keyword = None\<rparr>]\<rparr>
            in case answer of
                 Inl e \<Rightarrow> p3
               | Inr data_id \<Rightarrow>
                   (let p4 = p3\<lparr>messages := butlast (messages p3) @
                                  [messageObj\<lparr>m_id := Some data_id\<rparr>]\<rparr>;
                        p5 = p4\<lparr>userInfo_chatCount := userInfo_chatCount p4 + 1\<rparr>;
                        p6 = p5\<lparr>localStorage :=
                                  (localStorage p5)
                                    \<lparr>businessChatCount := Some (userInfo_chatCount p5)\<rparr>\<rparr>
                    in if userInfo_chatCount p6 \<ge> 5 \<and> \<not> truthy (userInfo_name p6) \<and>
                          \<not> truthy (userInfo_email p6)
                       then p6\<lparr>prompts := prompts p6 + 1\<rparr>
                       else p6)))"

text \<open>
  \<open>showUserInfoForm\<close> puts one form into the page; \<open>submit_user_info\<close> is the click
  handler of its button, on the values of the two input fields. \<open>update_threw\<close> says that
  awaiting the update of \<open>chats\<close> threw.
\<close>

definition showUserInfoForm :: "plugin \<Rightarrow> plugin" where
  "showUserInfoForm p = p\<lparr>forms := forms p + 1\<rparr>"

definition submit_user_info ::
  "plugin \<Rightarrow> string \<Rightarrow> string \<Rightarrow> timestamptz \<Rightarrow> bool \<Rightarrow> plugin" where
  "submit_user_info p nameInput emailInput now update_threw =
     (let name = trim nameInput; email = trim emailInput
      in if name \<noteq> [] \<and> email \<noteq> [] then
           (let p1 = p\<lparr>userInfo_name := Some name, userInfo_email := Some email\<rparr>;
                p2 = p1\<lparr>localStorage :=
                          (localStorage p1)\<lparr>businessChatName := Some name,
                                             businessChatEmail := Some email\<rparr>\<rparr>;
                p3 = p2\<lparr>outbox := outbox p2 @ [UpdateChatVisitor (chatId p2) name email]\<rparr>
            in if update_threw then p3
               else
                 (let p4 = addMessage p3
                             \<lparr>m_id = None,
                              m_content = ''Thank you, '' @ name @ ''! We'' @ [CHR 0x27] @
                                ''ll use your contact information to follow up if needed.'',
                              m_sender_type = ''business'', m_is_auto_reply = Some False,
                              m_auto_reply_keyword = None, m_created_at = now\<rparr>
                  in p4\<lparr>forms := forms p4 - 1\<rparr>))
         else p)"

text \<open>
  What the backend does with an \<open>UpdateChatVisitor\<close> request:
  \<^verbatim>\<open>update({visitor_name, visitor_email}).eq('id', chatId)\<close>, which fires
  \<open>update_updated_at_column\<close> on the rows it changes. A null id equals no row's id.
\<close>

definition update_chat_visitor ::
  "timestamptz \<Rightarrow> uuid option \<Rightarrow> string \<Rightarrow> string \<Rightarrow> database \<Rightarrow> database" where
  "update_chat_visitor now cid name email db =
     db\<lparr>chats :=
          map (\<lambda>c. if Some (c_id c) = cid
                    then update_updated_at_column now
                           (c\<lparr>visitor_name := Some name, visitor_email := Some email\<rparr>)
                    else c) (chats db)\<rparr>"

text \<open>
  A session of the visitor: calls of \<open>sendMessage\<close> one after the other, each with the
  text of the input field, the client's clock and the answers of the backend.
\<close>

fun sendMessages ::
  "plugin \<Rightarrow> (string \<times> timestamptz \<times> (error + uuid) \<times> (error + uuid)) list \<Rightarrow> plugin" where
  "sendMessages p [] = p"
| "sendMessages p ((text, now, chat_answer, answer) # sends) =
     sendMessages (sendMessage p text now chat_answer answer) sends"

section \<open>The dashboard: \<open>handleSendMessage\<close> of \<open>ChatTab\<close>\<close>

record chat_tab =
  d_widgetId :: uuid
  activeChat :: "chat option"
  newMessage :: string
  d_error :: string
  d_outbox :: "request list"

text \<open>\<open>answer\<close> is the answer to the insert of the message, \<open>now\<close> the client's clock.\<close>

definition handleSendMessage :: "chat_tab \<Rightarrow> timestamptz \<Rightarrow> error + unit \<Rightarrow> chat_tab" where
  "handleSendMessage d now answer =
     (case activeChat d of
        None \<Rightarrow> d
      | Some active \<Rightarrow>
          if trim (newMessage d) = [] then d
          else
            (let d1 = d\<lparr>d_outbox := d_outbox d @
                          [InsertMessage
                             \<lparr>v_chat_id = Some (c_id active), v_widget_id = d_widgetId d,
                              v_content = trim (newMessage d), v_sender_type = ''business'',
                              v_is_auto_reply = False, v_auto_reply_keyword = None\<rparr>]\<rparr>
             in case answer of
                  Inl e \<Rightarrow> d1\<lparr>d_error := ''Failed to send message. Please try again.''\<rparr>
                | Inr u \<Rightarrow>
                    d1\<lparr>d_outbox := d_outbox d1 @ [UpdateChatUpdatedAt (c_id active) now],
                       newMessage := []\<rparr>))"

section \<open>Example data\<close>

definition rule_hi :: auto_reply where
  "rule_hi = \<lparr>ar_id = 1, ar_user_id = 7, ar_widget_id = 3, keyword = ''hi'',
              response = ''A'', ar_created_at = 0\<rparr>"

definition rule_hi_there :: auto_reply where
  "rule_hi_there = \<lparr>ar_id = 2, ar_user_id = 7, ar_widget_id = 3, keyword = ''hi there'',
                    response = ''B'', ar_created_at = 0\<rparr>"

definition rule_price :: auto_reply where
  "rule_price = \<lparr>ar_id = 3, ar_user_id = 7, ar_widget_id = 3, keyword = ''price'',
                 response = ''From 19 a month'', ar_created_at = 0\<rparr>"

definition rule_hours :: auto_reply where
  "rule_hours = \<lparr>ar_id = 4, ar_user_id = 7, ar_widget_id = 3, keyword = ''hours'',
                 response = ''9-5 EST'', ar_created_at = 0\<rparr>"

definition rule_empty :: auto_reply where
  "rule_empty = \<lparr>ar_id = 5, ar_user_id = 7, ar_widget_id = 3, keyword = [],
                 response = ''How can we help?'', ar_created_at = 0\<rparr>"

definition msg_hi_there_friend :: chat_message where
  "msg_hi_there_friend =
     \<lparr>msg_id = 10, chat_id = 5, widget_id = 3, content = ''hi there friend'',
      sender_type = ''visitor'', is_auto_reply = Some False, auto_reply_keyword = None,
      created_at = 4\<rparr>"

definition msg_empty :: chat_message where
  "msg_empty =
     \<lparr>msg_id = 11, chat_id = 5, widget_id = 3, content = [], sender_type = ''visitor'',
      is_auto_reply = Some False, auto_reply_keyword = None, created_at = 4\<rparr>"

definition msg_price_hours :: chat_message where
  "msg_price_hours =
     \<lparr>msg_id = 12, chat_id = 5, widget_id = 3, content = ''Price and hours?'',
      sender_type = ''visitor'', is_auto_reply = Some False, auto_reply_keyword = None,
      created_at = 4\<rparr>"

definition msg_xyz :: chat_message where
  "msg_xyz =
     \<lparr>msg_id = 13, chat_id = 5, widget_id = 3, content = ''xyz'', sender_type = ''visitor'',
      is_auto_reply = Some False, auto_reply_keyword = None, created_at = 4\<rparr>"

definition db0 :: database where
  "db0 =
     \<lparr>widgets = [\<lparr>w_id = 3, w_user_id = 7, primary_color = None, header_text = None,
                  welcome_message = None, logo_url = None\<rparr>],
      auto_replies = [rule_hours],
      chats = [\<lparr>c_id = 5, c_widget_id = 3, visitor_name = None, visitor_email = None,
                visitor_page = Some ''/'', c_created_at = 1, updated_at = 1\<rparr>],
      chat_messages = []\<rparr>"

definition v_hours :: message_values where
  "v_hours =
     \<lparr>v_chat_id = Some 5, v_widget_id = 3, v_content = ''what are your hours?'',
      v_sender_type = ''visitor'', v_is_auto_reply = False, v_auto_reply_keyword = None\<rparr>"

definition v_agent :: message_values where
  "v_agent =
     \<lparr>v_chat_id = Some 5, v_widget_id = 3, v_content = ''our hours are on the site'',
      v_sender_type = ''business'', v_is_auto_reply = False, v_auto_reply_keyword = None\<rparr>"

definition db0_hours_sent :: database where
  "db0_hours_sent =
     update_chats_updated_at 9 5
       (db0\<lparr>chat_messages :=
             [new_row 20 9 5 v_hours,
              new_row 21 9 5 (auto_reply_values (new_row 20 9 5 v_hours) rule_hours)]\<rparr>)"

definition db0_agent_sent :: database where
  "db0_agent_sent = db0\<lparr>chat_messages := [new_row 20 9 5 v_agent]\<rparr>"

definition plugin0 :: plugin where
  "plugin0 =
     \<lparr>widgetId = 3, chatId = Some 5, messages = [], userInfo_name = None,
      userInfo_email = None, userInfo_chatCount = 0, settings = default_settings,
      isOpen = False, isInitialized = True,
      localStorage = \<lparr>businessChatId = Some 5, businessChatName = None,
                       businessChatEmail = None, businessChatCount = None\<rparr>,
      pageUrl = ''https://example.com/'', outbox = [], prompts = 0, forms = 0,
      subscriptions = [5]\<rparr>"

definition row_visitor_hours :: chat_message where
  "row_visitor_hours = new_row 20 9 5 v_hours"

definition row_reply_hours :: chat_message where
  "row_reply_hours = new_row 21 9 5 (auto_reply_values (new_row 20 9 5 v_hours) rule_hours)"

definition six_sends :: "(string \<times> timestamptz \<times> (error + uuid) \<times> (error + uuid)) list" where
  "six_sends =
     [(''one'', 1, Inr 5, Inr 31), (''two'', 2, Inr 5, Inr 32), (''three'', 3, Inr 5, Inr 33),
      (''four'', 4, Inr 5, Inr 34), (''five'', 5, Inr 5, Inr 35), (''six'', 6, Inr 5, Inr 36)]"

section \<open>Properties of the matching query\<close>

lemma position_from_pos:
  "0 < i \<Longrightarrow> (0 < position_from i sub s) = sublist sub s"
  by (induction s arbitrary: i) (auto simp: sublist_Cons_right)

lemma position_pos_iff: "(0 < position sub s) = (\<exists>ps ss. s = ps @ sub @ ss)"
  by (simp add: position_def position_from_pos sublist_def)

lemmas ex_defs =
  rule_hi_def rule_hi_there_def rule_price_def rule_hours_def rule_empty_def
  msg_hi_there_friend_def msg_empty_def msg_price_hours_def msg_xyz_def
lemmas q_defs =
  select_matching_reply_def order_by_limit_1_def matching_rows_def where_clause_def
  position_def lower_def lower_char_def

lemma where_clause_iff:
  "where_clause NEW r \<longleftrightarrow>
     ar_widget_id r = widget_id NEW \<and> (\<exists>ps ss. lower (content NEW) = ps @ lower (keyword r) @ ss)"
  by (simp add: where_clause_def position_pos_iff)

lemma select_Some_iff:
  "select_matching_reply tbl NEW (Some r) \<longleftrightarrow>
     r \<in> set tbl \<and> where_clause NEW r \<and>
     (\<forall>r' \<in> set tbl. where_clause NEW r' \<longrightarrow> length (keyword r') \<le> length (keyword r))"
  by (auto simp: select_matching_reply_def order_by_limit_1_def matching_rows_def)

lemma select_None_iff:
  "select_matching_reply tbl NEW None \<longleftrightarrow> (\<forall>r \<in> set tbl. \<not> where_clause NEW r)"
  by (auto simp: select_matching_reply_def order_by_limit_1_def matching_rows_def filter_empty_conv)

lemma ex_longest_row:
  "rows \<noteq> [] \<Longrightarrow> \<exists>r \<in> set rows. \<forall>r' \<in> set rows. length (keyword r') \<le> length (keyword r)"
proof (induction rows)
  case Nil
  then show ?case by simp
next
  case (Cons a rows)
  show ?case
  proof (cases "rows = []")
    case True
    then show ?thesis by simp
  next
    case False
    with Cons.IH obtain r where r: "r \<in> set rows"
      "\<forall>r' \<in> set rows. length (keyword r') \<le> length (keyword r)" by blast
    show ?thesis
    proof (cases "length (keyword r) \<le> length (keyword a)")
      case True
      with r have "\<forall>r' \<in> set (a # rows). length (keyword r') \<le> length (keyword a)"
        by (auto intro: le_trans)
      then show ?thesis by (meson list.set_intros(1))
    next
      case False
      with r have "\<forall>r' \<in> set (a # rows). length (keyword r') \<le> length (keyword r)"
        by auto
      with r(1) show ?thesis by (meson list.set_intros(2))
    qed
  qed
qed

lemma select_total: "\<exists>res. select_matching_reply tbl NEW res"
proof (cases "matching_rows tbl NEW = []")
  case True
  then have "select_matching_reply tbl NEW None"
    by (simp add: select_matching_reply_def order_by_limit_1_def)
  then show ?thesis ..
next
  case False
  from ex_longest_row [OF this] obtain r where
    "r \<in> set (matching_rows tbl NEW)"
    "\<forall>r' \<in> set (matching_rows tbl NEW). length (keyword r') \<le> length (keyword r)" by blast
  then have "select_matching_reply tbl NEW (Some r)"
    by (simp add: select_matching_reply_def order_by_limit_1_def)
  then show ?thesis ..
qed

lemma select_Some_contained_iff:
  "select_matching_reply tbl NEW (Some r) \<longleftrightarrow>
     r \<in> set tbl \<and> ar_widget_id r = widget_id NEW \<and>
     (\<exists>ps ss. lower (content NEW) = ps @ lower (keyword r) @ ss) \<and>
     (\<forall>r' \<in> set tbl. ar_widget_id r' = widget_id NEW \<and>
          (\<exists>ps ss. lower (content NEW) = ps @ lower (keyword r') @ ss) \<longrightarrow>
        length (keyword r') \<le> length (keyword r))"
  by (simp only: select_Some_iff where_clause_iff conj_assoc)

lemma select_None_contained_iff:
  "select_matching_reply tbl NEW None \<longleftrightarrow>
     \<not> (\<exists>r \<in> set tbl. ar_widget_id r = widget_id NEW \<and>
          (\<exists>ps ss. lower (content NEW) = ps @ lower (keyword r) @ ss))"
  by (simp only: select_None_iff where_clause_iff bex_simps)

lemma where_clause_empty_content:
  "content NEW = [] \<Longrightarrow>
   where_clause NEW r \<longleftrightarrow> ar_widget_id r = widget_id NEW \<and> keyword r = []"
  by (simp add: where_clause_iff lower_def)

text \<open>
  Claim C1, amended. The query always delivers a result. It delivers a rule only if the
  rule is in the table, belongs to the widget of the message, and its keyword, lower-cased,
  occurs as a substring of the lower-cased message text. On an empty rule table it delivers
  no rule. On an empty message text it delivers no rule exactly when no rule of the widget
  has the empty keyword; the rules it may deliver otherwise are the rules of the widget with
  the empty keyword, the empty string being contained in every text.
\<close>

theorem match_only_contained_keyword:
  "(\<exists>res. select_matching_reply tbl NEW res) \<and>
   (\<forall>r. select_matching_reply tbl NEW (Some r) \<longrightarrow>
        r \<in> set tbl \<and> ar_widget_id r = widget_id NEW \<and>
        (\<exists>ps ss. lower (content NEW) = ps @ lower (keyword r) @ ss)) \<and>
   (\<forall>res. select_matching_reply [] NEW res \<longleftrightarrow> res = None) \<and>
   (content NEW = [] \<longrightarrow>
        (select_matching_reply tbl NEW None \<longleftrightarrow>
           (\<forall>r \<in> set tbl. ar_widget_id r = widget_id NEW \<longrightarrow> keyword r \<noteq> [])) \<and>
        (\<forall>r. select_matching_reply tbl NEW (Some r) \<longleftrightarrow>
           r \<in> set tbl \<and> ar_widget_id r = widget_id NEW \<and> keyword r = []))"
proof (intro conjI allI impI)
  show "\<exists>res. select_matching_reply tbl NEW res" by (rule select_total)
next
  fix r assume "select_matching_reply tbl NEW (Some r)"
  then show "r \<in> set tbl" "ar_widget_id r = widget_id NEW"
    "\<exists>ps ss. lower (content NEW) = ps @ lower (keyword r) @ ss"
    by (simp_all add: select_Some_iff where_clause_iff)
next
  fix res show "select_matching_reply [] NEW res \<longleftrightarrow> res = None"
    by (cases res) (simp_all add: select_matching_reply_def order_by_limit_1_def matching_rows_def)
next
  assume e: "content NEW = []"
  show "select_matching_reply tbl NEW None \<longleftrightarrow>
           (\<forall>r \<in> set tbl. ar_widget_id r = widget_id NEW \<longrightarrow> keyword r \<noteq> [])"
    by (simp add: select_None_iff where_clause_empty_content [OF e])
next
  fix r
  assume e: "content NEW = []"
  show "select_matching_reply tbl NEW (Some r) \<longleftrightarrow>
           r \<in> set tbl \<and> ar_widget_id r = widget_id NEW \<and> keyword r = []"
    by (auto simp: select_Some_iff where_clause_empty_content [OF e])
qed

theorem match_only_contained_keyword_witness:
  "select_matching_reply [rule_hi, rule_hi_there] msg_hi_there_friend (Some rule_hi_there) \<and>
   (\<exists>ps ss. lower (content msg_hi_there_friend) = ps @ lower (keyword rule_hi_there) @ ss) \<and>
   content msg_empty = [] \<and>
   select_matching_reply [rule_hi, rule_hi_there] msg_empty None \<and>
   select_matching_reply [rule_hi, rule_empty] msg_empty (Some rule_empty) \<and>
   \<not> select_matching_reply [rule_hi, rule_empty] msg_empty (Some rule_hi)"
proof -
  have s: "select_matching_reply [rule_hi, rule_hi_there] msg_hi_there_friend (Some rule_hi_there)"
    by (simp add: ex_defs q_defs)
  with match_only_contained_keyword [of "[rule_hi, rule_hi_there]" msg_hi_there_friend]
  have c: "\<exists>ps ss. lower (content msg_hi_there_friend) = ps @ lower (keyword rule_hi_there) @ ss"
    by blast
  have e: "content msg_empty = []"
    by (simp add: ex_defs)
  have k: "\<forall>r \<in> set [rule_hi, rule_hi_there]. ar_widget_id r = widget_id msg_empty \<longrightarrow> keyword r \<noteq> []"
    by (simp add: ex_defs)
  from match_only_contained_keyword [of "[rule_hi, rule_hi_there]" msg_empty] e k
  have n: "select_matching_reply [rule_hi, rule_hi_there] msg_empty None"
    by blast
  have m: "rule_empty \<in> set [rule_hi, rule_empty] \<and> ar_widget_id rule_empty = widget_id msg_empty \<and>
      keyword rule_empty = []"
    and m': "keyword rule_hi \<noteq> []"
    by (simp_all add: ex_defs)
  from match_only_contained_keyword [of "[rule_hi, rule_empty]" msg_empty] e
  have t: "\<forall>r. select_matching_reply [rule_hi, rule_empty] msg_empty (Some r) \<longleftrightarrow>
           r \<in> set [rule_hi, rule_empty] \<and> ar_widget_id r = widget_id msg_empty \<and> keyword r = []"
    by blast
  from t m have p: "select_matching_reply [rule_hi, rule_empty] msg_empty (Some rule_empty)"
    by blast
  from t m' have q: "\<not> select_matching_reply [rule_hi, rule_empty] msg_empty (Some rule_hi)"
    by blast
  from s c e n p q show ?thesis by simp
qed

text \<open>
  Claim C1 as stated fails on an empty message text: \<open>position\<close> of the empty keyword in
  the empty text is 1, so a rule with the empty keyword matches, and the query delivers it.
\<close>

theorem match_empty_keyword_counterexample:
  "content msg_empty = [] \<and>
   position (lower (keyword rule_empty)) (lower (content msg_empty)) = 1 \<and>
   select_matching_reply [rule_empty] msg_empty (Some rule_empty) \<and>
   \<not> select_matching_reply [rule_empty] msg_empty None"
  by (simp add: ex_defs q_defs)

text \<open>
  Claim C2. When the keyword of at least one rule of the widget is contained, without
  regard to case, in the message text, the query delivers a rule and never no rule. Every
  rule it may deliver is a rule of the table and of the widget whose keyword is contained
  in the text, and its keyword is at least as long as the keyword of every rule of the
  widget that is contained in the text. On the rules \<open>hi\<close> and \<open>hi there\<close> and the
  message \<open>hi there friend\<close> it delivers the rule \<open>hi there\<close> and nothing else.
\<close>

theorem match_selects_longest_keyword:
  "((\<exists>r \<in> set tbl. ar_widget_id r = widget_id NEW \<and>
        (\<exists>ps ss. lower (content NEW) = ps @ lower (keyword r) @ ss)) \<longrightarrow>
      (\<exists>r. select_matching_reply tbl NEW (Some r)) \<and>
      \<not> select_matching_reply tbl NEW None \<and>
      (\<forall>r. select_matching_reply tbl NEW (Some r) \<longrightarrow>
         r \<in> set tbl \<and> ar_widget_id r = widget_id NEW \<and>
         (\<exists>ps ss. lower (content NEW) = ps @ lower (keyword r) @ ss) \<and>
         (\<forall>r' \<in> set tbl. ar_widget_id r' = widget_id NEW \<and>
              (\<exists>ps ss. lower (content NEW) = ps @ lower (keyword r') @ ss) \<longrightarrow>
            length (keyword r') \<le> length (keyword r)))) \<and>
   (\<forall>res. select_matching_reply [rule_hi, rule_hi_there] msg_hi_there_friend res \<longleftrightarrow>
      res = Some rule_hi_there)"
proof (intro conjI impI allI)
  assume "\<exists>r \<in> set tbl. ar_widget_id r = widget_id NEW \<and>
        (\<exists>ps ss. lower (content NEW) = ps @ lower (keyword r) @ ss)"
  then have ne: "matching_rows tbl NEW \<noteq> []"
    by (auto simp: matching_rows_def filter_empty_conv where_clause_iff)
  from ex_longest_row [OF ne] show "\<exists>r. select_matching_reply tbl NEW (Some r)"
    by (auto simp: select_matching_reply_def order_by_limit_1_def)
  from ne show "\<not> select_matching_reply tbl NEW None"
    by (simp add: select_matching_reply_def order_by_limit_1_def)
next
  fix r
  assume "select_matching_reply tbl NEW (Some r)"
  then have s: "r \<in> set tbl \<and> ar_widget_id r = widget_id NEW \<and>
     (\<exists>ps ss. lower (content NEW) = ps @ lower (keyword r) @ ss) \<and>
     (\<forall>r' \<in> set tbl. ar_widget_id r' = widget_id NEW \<and>
          (\<exists>ps ss. lower (content NEW) = ps @ lower (keyword r') @ ss) \<longrightarrow>
        length (keyword r') \<le> length (keyword r))"
    by (rule iffD1 [OF select_Some_contained_iff])
  from s show "r \<in> set tbl" by (rule conjunct1)
  from s show "ar_widget_id r = widget_id NEW" by (rule conjunct2 [THEN conjunct1])
  from s show "\<exists>ps ss. lower (content NEW) = ps @ lower (keyword r) @ ss"
    by (rule conjunct2 [THEN conjunct2, THEN conjunct1])
  from s show "\<forall>r' \<in> set tbl. ar_widget_id r' = widget_id NEW \<and>
              (\<exists>ps ss. lower (content NEW) = ps @ lower (keyword r') @ ss) \<longrightarrow>
            length (keyword r') \<le> length (keyword r)"
    by (rule conjunct2 [THEN conjunct2, THEN conjunct2])
next
  fix res
  show "select_matching_reply [rule_hi, rule_hi_there] msg_hi_there_friend res \<longleftrightarrow>
      res = Some rule_hi_there"
    by (cases res) (auto simp: ex_defs q_defs)
qed

theorem match_selects_longest_keyword_witness:
  "(\<exists>r \<in> set [rule_price, rule_hi]. ar_widget_id r = widget_id msg_price_hours \<and>
        (\<exists>ps ss. lower (content msg_price_hours) = ps @ lower (keyword r) @ ss)) \<and>
   select_matching_reply [rule_price, rule_hi] msg_price_hours (Some rule_price) \<and>
   \<not> select_matching_reply [rule_price, rule_hi] msg_price_hours None \<and>
   \<not> select_matching_reply [rule_price, rule_hi] msg_price_hours (Some rule_hi) \<and>
   (\<exists>ps ss. lower (content msg_price_hours) = ps @ lower (keyword rule_price) @ ss)"
proof -
  have s: "select_matching_reply [rule_price, rule_hi] msg_price_hours (Some rule_price)"
    by (simp add: ex_defs q_defs)
  then have "where_clause msg_price_hours rule_price"
    by (simp add: select_Some_iff)
  then have h: "\<exists>r \<in> set [rule_price, rule_hi]. ar_widget_id r = widget_id msg_price_hours \<and>
        (\<exists>ps ss. lower (content msg_price_hours) = ps @ lower (keyword r) @ ss)"
    by (simp add: where_clause_iff)
  have x: "\<not> (\<exists>ps ss. lower (content msg_price_hours) = ps @ lower (keyword rule_hi) @ ss)"
    unfolding position_pos_iff [symmetric] by (simp add: ex_defs q_defs)
  note t = match_selects_longest_keyword [of "[rule_price, rule_hi]" msg_price_hours,
      THEN conjunct1, THEN mp, OF h]
  from t have n: "\<not> select_matching_reply [rule_price, rule_hi] msg_price_hours None"
    by blast
  from t x have y: "\<not> select_matching_reply [rule_price, rule_hi] msg_price_hours (Some rule_hi)"
    by blast
  from t s have c: "\<exists>ps ss. lower (content msg_price_hours) = ps @ lower (keyword rule_price) @ ss"
    by blast
  from h s n y c show ?thesis by blast
qed

text \<open>
  Claim C5, amended. The query always delivers a result, one row at most: no rule exactly
  when no rule of the widget has its keyword contained in the message text, and otherwise
  a rule of the widget whose keyword is contained in the text and is at least as long as
  the keyword of every such rule; every rule of this kind may be delivered. Two results
  for the same rule table and message are therefore equal, or they are two different rules
  of the widget, both contained in the text and both of the maximal keyword length: the
  query orders by keyword length alone, and which of several longest matching rules it
  keeps is not fixed by it.
\<close>

theorem match_unique_up_to_ties:
  "(\<exists>res. select_matching_reply tbl NEW res) \<and>
   (select_matching_reply tbl NEW None \<longleftrightarrow>
      \<not> (\<exists>r \<in> set tbl. ar_widget_id r = widget_id NEW \<and>
           (\<exists>ps ss. lower (content NEW) = ps @ lower (keyword r) @ ss))) \<and>
   (\<forall>r. select_matching_reply tbl NEW (Some r) \<longleftrightarrow>
      r \<in> set tbl \<and> ar_widget_id r = widget_id NEW \<and>
      (\<exists>ps ss. lower (content NEW) = ps @ lower (keyword r) @ ss) \<and>
      (\<forall>x \<in> set tbl. ar_widget_id x = widget_id NEW \<and>
           (\<exists>ps ss. lower (content NEW) = ps @ lower (keyword x) @ ss) \<longrightarrow>
         length (keyword x) \<le> length (keyword r))) \<and>
   (\<forall>a b. select_matching_reply tbl NEW a \<longrightarrow> select_matching_reply tbl NEW b \<longrightarrow>
      a = b \<or>
      (\<exists>r r'. a = Some r \<and> b = Some r' \<and> r \<noteq> r' \<and>
         r \<in> set tbl \<and> r' \<in> set tbl \<and>
         ar_widget_id r = widget_id NEW \<and> ar_widget_id r' = widget_id NEW \<and>
         (\<exists>ps ss. lower (content NEW) = ps @ lower (keyword r) @ ss) \<and>
         (\<exists>ps ss. lower (content NEW) = ps @ lower (keyword r') @ ss) \<and>
         length (keyword r) = length (keyword r') \<and>
         (\<forall>x \<in> set tbl. ar_widget_id x = widget_id NEW \<and>
              (\<exists>ps ss. lower (content NEW) = ps @ lower (keyword x) @ ss) \<longrightarrow>
            length (keyword x) \<le> length (keyword r))))"
proof (intro conjI allI impI)
  show "\<exists>res. select_matching_reply tbl NEW res" by (rule select_total)
next
  show "select_matching_reply tbl NEW None \<longleftrightarrow>
      \<not> (\<exists>r \<in> set tbl. ar_widget_id r = widget_id NEW \<and>
           (\<exists>ps ss. lower (content NEW) = ps @ lower (keyword r) @ ss))"
    by (rule select_None_contained_iff)
next
  fix r
  show "select_matching_reply tbl NEW (Some r) \<longleftrightarrow>
      r \<in> set tbl \<and> ar_widget_id r = widget_id NEW \<and>
      (\<exists>ps ss. lower (content NEW) = ps @ lower (keyword r) @ ss) \<and>
      (\<forall>x \<in> set tbl. ar_widget_id x = widget_id NEW \<and>
           (\<exists>ps ss. lower (content NEW) = ps @ lower (keyword x) @ ss) \<longrightarrow>
         length (keyword x) \<le> length (keyword r))"
    by (rule select_Some_contained_iff)
next
  fix a b
  assume a: "select_matching_reply tbl NEW a" and b: "select_matching_reply tbl NEW b"
  show "a = b \<or>
      (\<exists>r r'. a = Some r \<and> b = Some r' \<and> r \<noteq> r' \<and>
         r \<in> set tbl \<and> r' \<in> set tbl \<and>
         ar_widget_id r = widget_id NEW \<and> ar_widget_id r' = widget_id NEW \<and>
         (\<exists>ps ss. lower (content NEW) = ps @ lower (keyword r) @ ss) \<and>
         (\<exists>ps ss. lower (content NEW) = ps @ lower (keyword r') @ ss) \<and>
         length (keyword r) = length (keyword r') \<and>
         (\<forall>x \<in> set tbl. ar_widget_id x = widget_id NEW \<and>
              (\<exists>ps ss. lower (content NEW) = ps @ lower (keyword x) @ ss) \<longrightarrow>
            length (keyword x) \<le> length (keyword r)))"
  proof (cases "a = b")
    case True
    then show ?thesis ..
  next
    case False
    have "\<exists>r r'. a = Some r \<and> b = Some r'"
    proof (cases a)
      case None
      with a b False show ?thesis
        by (cases b) (auto simp: select_None_iff select_Some_iff)
    next
      case (Some r)
      with a b False show ?thesis
        by (cases b) (auto simp: select_None_iff select_Some_iff)
    qed
    then obtain r r' where ab: "a = Some r" "b = Some r'" by blast
    from a ab have ra: "r \<in> set tbl" "where_clause NEW r"
      "\<forall>x \<in> set tbl. where_clause NEW x \<longrightarrow> length (keyword x) \<le> length (keyword r)"
      by (simp_all add: select_Some_iff)
    from b ab have rb: "r' \<in> set tbl" "where_clause NEW r'"
      "\<forall>x \<in> set tbl. where_clause NEW x \<longrightarrow> length (keyword x) \<le> length (keyword r')"
      by (simp_all add: select_Some_iff)
    from ra rb have l: "length (keyword r) = length (keyword r')"
      by (meson le_antisym)
    from False ab have d: "r \<noteq> r'" by simp
    from ra(2) have wa: "ar_widget_id r = widget_id NEW"
      "\<exists>ps ss. lower (content NEW) = ps @ lower (keyword r) @ ss"
      by (simp_all add: where_clause_iff)
    from rb(2) have wb: "ar_widget_id r' = widget_id NEW"
      "\<exists>ps ss. lower (content NEW) = ps @ lower (keyword r') @ ss"
      by (simp_all add: where_clause_iff)
    from ra(3) have m: "\<forall>x \<in> set tbl. ar_widget_id x = widget_id NEW \<and>
              (\<exists>ps ss. lower (content NEW) = ps @ lower (keyword x) @ ss) \<longrightarrow>
            length (keyword x) \<le> length (keyword r)"
      by (simp only: where_clause_iff)
    from ab d ra(1) rb(1) wa wb l m show ?thesis by blast
  qed
qed

theorem match_unique_up_to_ties_witness:
  "select_matching_reply [rule_price, rule_hours] msg_price_hours (Some rule_price) \<and>
   select_matching_reply [rule_price, rule_hours] msg_price_hours (Some rule_hours) \<and>
   rule_price \<noteq> rule_hours \<and>
   length (keyword rule_price) = length (keyword rule_hours) \<and>
   (\<exists>ps ss. lower (content msg_price_hours) = ps @ lower (keyword rule_hours) @ ss) \<and>
   select_matching_reply [rule_hi, rule_hi_there] msg_xyz None \<and>
   (\<exists>res. select_matching_reply [rule_hi, rule_hi_there] msg_hi_there_friend res)"
proof -
  have a: "select_matching_reply [rule_price, rule_hours] msg_price_hours (Some rule_price)"
    and b: "select_matching_reply [rule_price, rule_hours] msg_price_hours (Some rule_hours)"
    and d: "rule_price \<noteq> rule_hours"
    by (simp_all add: ex_defs q_defs)
  note t = match_unique_up_to_ties [of "[rule_price, rule_hours]" msg_price_hours]
  from t a b d have l: "length (keyword rule_price) = length (keyword rule_hours)"
    by blast
  from t b have c: "\<exists>ps ss. lower (content msg_price_hours) = ps @ lower (keyword rule_hours) @ ss"
    by blast
  have "\<not> (\<exists>r \<in> set [rule_hi, rule_hi_there]. ar_widget_id r = widget_id msg_xyz \<and>
           (\<exists>ps ss. lower (content msg_xyz) = ps @ lower (keyword r) @ ss))"
    unfolding position_pos_iff [symmetric] by (simp add: ex_defs q_defs)
  with match_unique_up_to_ties [of "[rule_hi, rule_hi_there]" msg_xyz]
  have n: "select_matching_reply [rule_hi, rule_hi_there] msg_xyz None"
    by blast
  from match_unique_up_to_ties [of "[rule_hi, rule_hi_there]" msg_hi_there_friend]
  have e: "\<exists>res. select_matching_reply [rule_hi, rule_hi_there] msg_hi_there_friend res"
    by blast
  from a b d l c n e show ?thesis by blast
qed

text \<open>
  Claim C5 as stated fails: \<open>price\<close> and \<open>hours\<close> are both contained in
  \<open>Price and hours?\<close> and equally long, and the query may deliver either rule.
\<close>

theorem match_tie_counterexample:
  "select_matching_reply [rule_price, rule_hours] msg_price_hours (Some rule_price) \<and>
   select_matching_reply [rule_price, rule_hours] msg_price_hours (Some rule_hours) \<and>
   rule_price \<noteq> rule_hours"
  by (simp add: ex_defs q_defs)

section \<open>The outcomes of an insert\<close>

lemma row_of_iff: "row_of tbl r \<longleftrightarrow> r \<in> set tbl"
proof
  assume "row_of tbl r"
  then show "r \<in> set tbl" by induction simp_all
next
  assume "r \<in> set tbl"
  then show "row_of tbl r"
    by (induction tbl) (auto intro: row_of.intros)
qed

lemma ex_fresh_id: "\<exists>u. \<forall>m \<in> set (ms :: chat_message list). msg_id m \<noteq> u"
proof -
  have "\<exists>u. u \<notin> msg_id ` set ms"
    by (rule ex_new_if_finite) simp_all
  then obtain u where "u \<notin> msg_id ` set ms" ..
  then have "\<forall>m \<in> set ms. msg_id m \<noteq> u" by auto
  then show ?thesis ..
qed

lemma handle_auto_reply_not_visitor:
  "handle_auto_reply now ids db NEW out \<Longrightarrow> sender_type NEW \<noteq> ''visitor'' \<Longrightarrow> out = Inr db"
  by (erule handle_auto_reply.cases) simp_all

lemma insert_chat_message_cases:
  "insert_chat_message now ids db v out \<Longrightarrow>
     out = Inl ConstraintViolation \<or>
     (\<exists>u ids' cid. ids = u # ids' \<and> constraints_ok db v \<and> v_chat_id v = Some cid \<and>
        (\<forall>m \<in> set (chat_messages db). msg_id m \<noteq> u) \<and>
        handle_auto_reply now ids' (db\<lparr>chat_messages := chat_messages db @ [new_row u now cid v]\<rparr>)
          (new_row u now cid v) out)"
  by (erule insert_chat_message.cases) blast+

lemma sender_type_new_row [simp]: "sender_type (new_row u now cid v) = v_sender_type v"
  by (simp add: new_row_def)

lemma insert_not_visitor_Inr:
  assumes "insert_chat_message now ids db v (Inr db')" and "v_sender_type v \<noteq> ''visitor''"
  shows "\<exists>u cid. constraints_ok db v \<and> v_chat_id v = Some cid \<and>
           (\<forall>m \<in> set (chat_messages db). msg_id m \<noteq> u) \<and>
           db' = db\<lparr>chat_messages := chat_messages db @ [new_row u now cid v]\<rparr>"
proof -
  from insert_chat_message_cases [OF assms(1)] obtain u ids' cid where
    h: "constraints_ok db v" "v_chat_id v = Some cid"
      "\<forall>m \<in> set (chat_messages db). msg_id m \<noteq> u"
      "handle_auto_reply now ids' (db\<lparr>chat_messages := chat_messages db @ [new_row u now cid v]\<rparr>)
          (new_row u now cid v) (Inr db')"
    by auto
  from handle_auto_reply_not_visitor [OF h(4)] assms(2)
  have "db' = db\<lparr>chat_messages := chat_messages db @ [new_row u now cid v]\<rparr>" by simp
  with h show ?thesis by blast
qed

lemma auto_reply_values_simps [simp]:
  "v_sender_type (auto_reply_values NEW r) = ''business''"
  "v_chat_id (auto_reply_values NEW r) = Some (chat_id NEW)"
  "v_widget_id (auto_reply_values NEW r) = widget_id NEW"
  "v_content (auto_reply_values NEW r) = response r"
  "v_is_auto_reply (auto_reply_values NEW r) = True"
  "v_auto_reply_keyword (auto_reply_values NEW r) = Some (keyword r)"
  by (simp_all add: auto_reply_values_def)

lemma handle_auto_reply_visitor_Inr:
  assumes "handle_auto_reply now ids db NEW (Inr db')" and "sender_type NEW = ''visitor''"
  shows "(select_matching_reply (auto_replies db) NEW None \<and> db' = db) \<or>
         (\<exists>r u. select_matching_reply (auto_replies db) NEW (Some r) \<and>
            (\<forall>m \<in> set (chat_messages db). msg_id m \<noteq> u) \<and>
            db' = update_chats_updated_at now (chat_id NEW)
                    (db\<lparr>chat_messages := chat_messages db @
                          [new_row u now (chat_id NEW) (auto_reply_values NEW r)]\<rparr>))"
  using assms
proof (cases rule: handle_auto_reply.cases)
  case not_visitor
  with assms(2) show ?thesis by simp
next
  case not_found
  then show ?thesis by simp
next
  case (found r db1)
  from insert_not_visitor_Inr [OF found(5)] obtain u where
    "\<forall>m \<in> set (chat_messages db). msg_id m \<noteq> u"
    "db1 = db\<lparr>chat_messages := chat_messages db @
              [new_row u now (chat_id NEW) (auto_reply_values NEW r)]\<rparr>"
    by auto
  with found show ?thesis by blast
qed

lemma insert_not_visitor_intro:
  "constraints_ok db v \<Longrightarrow> v_chat_id v = Some cid \<Longrightarrow> v_sender_type v \<noteq> ''visitor'' \<Longrightarrow>
   \<forall>m \<in> set (chat_messages db). msg_id m \<noteq> u \<Longrightarrow>
   insert_chat_message now (u # ids) db v
     (Inr (db\<lparr>chat_messages := chat_messages db @ [new_row u now cid v]\<rparr>))"
  by (rule inserted) (auto intro: not_visitor)

lemma constraints_ok_append [simp]:
  "constraints_ok (db\<lparr>chat_messages := ms\<rparr>) v = constraints_ok db v"
  by (simp add: constraints_ok_def split: option.splits)

lemma constraints_ok_auto_reply_values:
  "constraints_ok db v \<Longrightarrow> v_chat_id v = Some cid \<Longrightarrow>
   constraints_ok db (auto_reply_values (new_row u now cid v) r)"
  by (simp add: constraints_ok_def auto_reply_values_def new_row_def)

lemma insert_visitor_found_intro:
  assumes ok: "constraints_ok db v" and cid: "v_chat_id v = Some cid"
    and vis: "v_sender_type v = ''visitor''"
    and u: "\<forall>m \<in> set (chat_messages db). msg_id m \<noteq> u"
    and u': "\<forall>m \<in> set (chat_messages db). msg_id m \<noteq> u'" "u' \<noteq> u"
    and sel: "select_matching_reply (auto_replies db) (new_row u now cid v) (Some r)"
  shows "insert_chat_message now (u # u' # ids) db v
           (Inr (update_chats_updated_at now cid
                   (db\<lparr>chat_messages := chat_messages db @
                      [new_row u now cid v,
                       new_row u' now cid (auto_reply_values (new_row u now cid v) r)]\<rparr>)))"
proof -
  let ?NEW = "new_row u now cid v"
  let ?db1 = "db\<lparr>chat_messages := chat_messages db @ [?NEW]\<rparr>"
  have N: "chat_id ?NEW = cid" "msg_id ?NEW = u" by (simp_all add: new_row_def)
  from sel have row: "row_of (auto_replies ?db1) r"
    by (simp add: row_of_iff select_Some_iff)
  have "constraints_ok ?db1 (auto_reply_values ?NEW r)"
    using constraints_ok_auto_reply_values [OF ok cid] by simp
  moreover have "\<forall>m \<in> set (chat_messages ?db1). msg_id m \<noteq> u'"
    using u' N by simp
  ultimately have "insert_chat_message now (u' # ids) ?db1 (auto_reply_values ?NEW r)
      (Inr (?db1\<lparr>chat_messages := chat_messages ?db1 @
              [new_row u' now (chat_id ?NEW) (auto_reply_values ?NEW r)]\<rparr>))"
    by (intro insert_not_visitor_intro) simp_all
  with sel vis row have "handle_auto_reply now (u' # ids) ?db1 ?NEW
      (Inr (update_chats_updated_at now (chat_id ?NEW)
         (?db1\<lparr>chat_messages := chat_messages ?db1 @
              [new_row u' now (chat_id ?NEW) (auto_reply_values ?NEW r)]\<rparr>)))"
    by (intro found) simp_all
  from inserted [OF ok cid u this] N show ?thesis by simp
qed

lemma insert_total:
  assumes ok: "constraints_ok db v"
  shows "\<exists>ids db'. insert_chat_message now ids db v (Inr db')"
proof -
  from ok obtain cid where cid: "v_chat_id v = Some cid"
    by (auto simp: constraints_ok_def split: option.splits)
  obtain u where u: "\<forall>m \<in> set (chat_messages db). msg_id m \<noteq> u"
    using ex_fresh_id by blast
  let ?NEW = "new_row u now cid v"
  let ?db1 = "db\<lparr>chat_messages := chat_messages db @ [?NEW]\<rparr>"
  show ?thesis
  proof (cases "v_sender_type v = ''visitor''")
    case False
    from insert_not_visitor_intro [OF ok cid False u, of now "[]"] show ?thesis by blast
  next
    case True
    from select_total obtain res where res: "select_matching_reply (auto_replies db) ?NEW res"
      by blast
    show ?thesis
    proof (cases res)
      case None
      with res True have "handle_auto_reply now [] ?db1 ?NEW (Inr ?db1)"
        by (intro not_found) simp_all
      from inserted [OF ok cid u this] show ?thesis by blast
    next
      case (Some r)
      obtain u' where "\<forall>m \<in> set (chat_messages ?db1). msg_id m \<noteq> u'"
        using ex_fresh_id by blast
      then have u': "\<forall>m \<in> set (chat_messages db). msg_id m \<noteq> u'" "u' \<noteq> u"
        by (simp_all add: new_row_def)
      from res Some have "select_matching_reply (auto_replies db) ?NEW (Some r)" by simp
      from insert_visitor_found_intro [OF ok cid True u u' this, of "[]"] show ?thesis by blast
    qed
  qed
qed

lemma insert_visitor_Inr:
  assumes "insert_chat_message now ids db v (Inr db')" and "v_sender_type v = ''visitor''"
  shows "\<exists>u cid. constraints_ok db v \<and> v_chat_id v = Some cid \<and>
           (\<forall>m \<in> set (chat_messages db). msg_id m \<noteq> u) \<and>
           ((select_matching_reply (auto_replies db) (new_row u now cid v) None \<and>
             db' = db\<lparr>chat_messages := chat_messages db @ [new_row u now cid v]\<rparr>) \<or>
            (\<exists>r u'. select_matching_reply (auto_replies db) (new_row u now cid v) (Some r) \<and>
               u' \<noteq> u \<and> (\<forall>m \<in> set (chat_messages db). msg_id m \<noteq> u') \<and>
               db' = update_chats_updated_at now cid
                       (db\<lparr>chat_messages := chat_messages db @
                          [new_row u now cid v,
                           new_row u' now cid (auto_reply_values (new_row u now cid v) r)]\<rparr>)))"
proof -
  from insert_chat_message_cases [OF assms(1)] obtain u ids' cid where
    h: "constraints_ok db v" "v_chat_id v = Some cid"
      "\<forall>m \<in> set (chat_messages db). msg_id m \<noteq> u"
      "handle_auto_reply now ids' (db\<lparr>chat_messages := chat_messages db @ [new_row u now cid v]\<rparr>)
          (new_row u now cid v) (Inr db')"
    by auto
  have cidN: "chat_id (new_row u now cid v) = cid" and idN: "msg_id (new_row u now cid v) = u"
    by (simp_all add: new_row_def)
  from handle_auto_reply_visitor_Inr [OF h(4)] assms(2) cidN idN
  have "(select_matching_reply (auto_replies db) (new_row u now cid v) None \<and>
             db' = db\<lparr>chat_messages := chat_messages db @ [new_row u now cid v]\<rparr>) \<or>
            (\<exists>r u'. select_matching_reply (auto_replies db) (new_row u now cid v) (Some r) \<and>
               u' \<noteq> u \<and> (\<forall>m \<in> set (chat_messages db). msg_id m \<noteq> u') \<and>
               db' = update_chats_updated_at now cid
                       (db\<lparr>chat_messages := chat_messages db @
                          [new_row u now cid v,
                           new_row u' now cid (auto_reply_values (new_row u now cid v) r)]\<rparr>))"
    by auto
  with h show ?thesis by blast
qed

lemmas db_defs = db0_def v_hours_def v_agent_def db0_hours_sent_def db0_agent_sent_def

lemma insert_hours_example: "insert_chat_message 9 [20, 21] db0 v_hours (Inr db0_hours_sent)"
proof -
  have "insert_chat_message 9 [20, 21] db0 v_hours
          (Inr (update_chats_updated_at 9 5
                   (db0\<lparr>chat_messages := chat_messages db0 @
                      [new_row 20 9 5 v_hours,
                       new_row 21 9 5 (auto_reply_values (new_row 20 9 5 v_hours) rule_hours)]\<rparr>)))"
    by (rule insert_visitor_found_intro)
       (simp_all add: db_defs constraints_ok_def new_row_def ex_defs q_defs)
  then show ?thesis by (simp add: db0_hours_sent_def db0_def)
qed

lemma insert_agent_example: "insert_chat_message 9 [20] db0 v_agent (Inr db0_agent_sent)"
proof -
  have "insert_chat_message 9 [20] db0 v_agent
          (Inr (db0\<lparr>chat_messages := chat_messages db0 @ [new_row 20 9 5 v_agent]\<rparr>))"
    by (rule insert_not_visitor_intro) (simp_all add: db_defs constraints_ok_def)
  then show ?thesis by (simp add: db0_agent_sent_def db0_def)
qed

lemma update_chats_updated_at_simps [simp]:
  "chat_messages (update_chats_updated_at now cid db) = chat_messages db"
  "auto_replies (update_chats_updated_at now cid db) = auto_replies db"
  "widgets (update_chats_updated_at now cid db) = widgets db"
  by (simp_all add: update_chats_updated_at_def)

section \<open>Properties of the trigger\<close>

text \<open>
  Claim C3. An insert of a message that completes appends the message alone, or, for a
  visitor message only, the message and one auto-reply after it (sender \<open>business\<close>,
  auto-reply flag true): never more than one. Run for a row whose sender is
  \<open>business\<close>, \<open>handle_auto_reply\<close> has one outcome only, the unchanged database: no
  query, no reply; an insert of a \<open>business\<close> message appends that one row and leaves the
  chats as they are. The row that the trigger itself inserts has sender \<open>business\<close>.
\<close>

theorem at_most_one_auto_reply:
  "(\<forall>db'. insert_chat_message now ids db v (Inr db') \<longrightarrow>
      (\<exists>NEW. chat_messages db' = chat_messages db @ [NEW]) \<or>
      (v_sender_type v = ''visitor'' \<and>
       (\<exists>NEW a. chat_messages db' = chat_messages db @ [NEW, a] \<and>
          sender_type NEW = ''visitor'' \<and> sender_type a = ''business'' \<and>
          is_auto_reply a = Some True))) \<and>
   (sender_type row = ''business'' \<longrightarrow>
      (\<forall>out. handle_auto_reply now ids db row out \<longleftrightarrow> out = Inr db)) \<and>
   (v_sender_type v = ''business'' \<longrightarrow>
      (\<forall>db'. insert_chat_message now ids db v (Inr db') \<longrightarrow>
         (\<exists>NEW. chat_messages db' = chat_messages db @ [NEW] \<and> sender_type NEW = ''business'') \<and>
         chats db' = chats db)) \<and>
   v_sender_type (auto_reply_values row r) = ''business''"
proof (intro conjI allI impI)
  fix db' assume ins: "insert_chat_message now ids db v (Inr db')"
  show "(\<exists>NEW. chat_messages db' = chat_messages db @ [NEW]) \<or>
      (v_sender_type v = ''visitor'' \<and>
       (\<exists>NEW a. chat_messages db' = chat_messages db @ [NEW, a] \<and>
          sender_type NEW = ''visitor'' \<and> sender_type a = ''business'' \<and>
          is_auto_reply a = Some True))"
  proof (cases "v_sender_type v = ''visitor''")
    case False
    from insert_not_visitor_Inr [OF ins False] show ?thesis by auto
  next
    case True
    from insert_visitor_Inr [OF ins True] show ?thesis
      by (auto simp: True new_row_def)
  qed
next
  fix out assume b: "sender_type row = ''business''"
  then have nv: "sender_type row \<noteq> ''visitor''" by simp
  show "handle_auto_reply now ids db row out \<longleftrightarrow> out = Inr db"
    using handle_auto_reply_not_visitor [OF _ nv] not_visitor [OF nv] by blast
next
  fix db' assume b: "v_sender_type v = ''business''"
    and ins: "insert_chat_message now ids db v (Inr db')"
  from b have nv: "v_sender_type v \<noteq> ''visitor''" by simp
  from insert_not_visitor_Inr [OF ins nv] b
  show "\<exists>NEW. chat_messages db' = chat_messages db @ [NEW] \<and> sender_type NEW = ''business''"
    and "chats db' = chats db"
    by auto
next
  show "v_sender_type (auto_reply_values row r) = ''business''" by simp
qed

theorem at_most_one_auto_reply_witness:
  "insert_chat_message 9 [20, 21] db0 v_hours (Inr db0_hours_sent) \<and>
   ((\<exists>NEW. chat_messages db0_hours_sent = chat_messages db0 @ [NEW]) \<or>
    (v_sender_type v_hours = ''visitor'' \<and>
     (\<exists>NEW a. chat_messages db0_hours_sent = chat_messages db0 @ [NEW, a] \<and>
        sender_type NEW = ''visitor'' \<and> sender_type a = ''business'' \<and>
        is_auto_reply a = Some True))) \<and>
   v_sender_type v_agent = ''business'' \<and>
   insert_chat_message 9 [20] db0 v_agent (Inr db0_agent_sent) \<and>
   (\<exists>NEW. chat_messages db0_agent_sent = chat_messages db0 @ [NEW] \<and>
      sender_type NEW = ''business'') \<and>
   chats db0_agent_sent = chats db0 \<and>
   sender_type (new_row 20 9 5 v_agent) = ''business'' \<and>
   handle_auto_reply 9 [] db0_agent_sent (new_row 20 9 5 v_agent) (Inr db0_agent_sent)"
proof -
  note t1 = at_most_one_auto_reply [of 9 "[20, 21]" db0 v_hours "new_row 20 9 5 v_agent" rule_hours]
  note t2 = at_most_one_auto_reply [of 9 "[20]" db0 v_agent "new_row 20 9 5 v_agent" rule_hours]
  note t3 = at_most_one_auto_reply [of 9 "[]" db0_agent_sent v_agent "new_row 20 9 5 v_agent" rule_hours]
  have b: "v_sender_type v_agent = ''business''" by (simp add: v_agent_def)
  have b': "sender_type (new_row 20 9 5 v_agent) = ''business''" by (simp add: v_agent_def)
  from t1 insert_hours_example
  have 1: "(\<exists>NEW. chat_messages db0_hours_sent = chat_messages db0 @ [NEW]) \<or>
    (v_sender_type v_hours = ''visitor'' \<and>
     (\<exists>NEW a. chat_messages db0_hours_sent = chat_messages db0 @ [NEW, a] \<and>
        sender_type NEW = ''visitor'' \<and> sender_type a = ''business'' \<and>
        is_auto_reply a = Some True))" by blast
  from t2 b insert_agent_example
  have 2: "(\<exists>NEW. chat_messages db0_agent_sent = chat_messages db0 @ [NEW] \<and>
      sender_type NEW = ''business'') \<and> chats db0_agent_sent = chats db0" by blast
  from t3 b'
  have 3: "handle_auto_reply 9 [] db0_agent_sent (new_row 20 9 5 v_agent) (Inr db0_agent_sent)"
    by blast
  from insert_hours_example insert_agent_example 1 2 3 b b' show ?thesis by simp
qed

lemma chats_update_chats_updated_at:
  "chats (update_chats_updated_at now cid db) =
     map (\<lambda>c. if c_id c = cid then c\<lparr>updated_at := now\<rparr> else c) (chats db)"
  by (simp add: update_chats_updated_at_def update_updated_at_column_def)

lemma constraints_ok_chat:
  "constraints_ok db v \<Longrightarrow> v_chat_id v = Some cid \<Longrightarrow> \<exists>c \<in> set (chats db). c_id c = cid"
  by (simp add: constraints_ok_def)

lemma updated_rows_at_now:
  assumes "c \<in> set (chats (update_chats_updated_at now cid db))" and "c_id c = cid"
  shows "updated_at c = now"
proof -
  from assms(1) have "c \<in> (\<lambda>c. if c_id c = cid then c\<lparr>updated_at := now\<rparr> else c) ` set (chats db)"
    by (simp only: chats_update_chats_updated_at set_map)
  then obtain x where c: "c = (if c_id x = cid then x\<lparr>updated_at := now\<rparr> else x)"
    by (rule imageE)
  show ?thesis
  proof (cases "c_id x = cid")
    case True
    with c have "c = x\<lparr>updated_at := now\<rparr>" by simp
    then show ?thesis by simp
  next
    case False
    with c have "c = x" by simp
    with False assms(2) show ?thesis by simp
  qed
qed

lemma updated_row_kept:
  assumes "x \<in> set (chats db)" and "c_id x = cid"
  shows "\<exists>c \<in> set (chats (update_chats_updated_at now cid db)). c_id c = cid"
proof -
  let ?f = "\<lambda>c. if c_id c = cid then c\<lparr>updated_at := now\<rparr> else c"
  from assms(1) have "?f x \<in> ?f ` set (chats db)" by (rule imageI)
  then have "?f x \<in> set (chats (update_chats_updated_at now cid db))"
    by (simp only: chats_update_chats_updated_at set_map)
  moreover from assms(2) have "c_id (?f x) = cid" by simp
  ultimately show ?thesis ..
qed

lemma visitor_match_Inr:
  assumes ins: "insert_chat_message now ids db v (Inr db')"
    and vis: "v_sender_type v = ''visitor''"
    and ex_rule: "\<exists>r \<in> set (auto_replies db). ar_widget_id r = v_widget_id v \<and>
         (\<exists>ps ss. lower (v_content v) = ps @ lower (keyword r) @ ss)"
  shows "\<exists>u cid r u'. constraints_ok db v \<and> v_chat_id v = Some cid \<and>
           select_matching_reply (auto_replies db) (new_row u now cid v) (Some r) \<and>
           db' = update_chats_updated_at now cid
                   (db\<lparr>chat_messages := chat_messages db @
                      [new_row u now cid v,
                       new_row u' now cid (auto_reply_values (new_row u now cid v) r)]\<rparr>)"
proof -
  from insert_visitor_Inr [OF ins vis] obtain u cid where
    ok: "constraints_ok db v" and cid: "v_chat_id v = Some cid"
    and alt: "(select_matching_reply (auto_replies db) (new_row u now cid v) None \<and>
             db' = db\<lparr>chat_messages := chat_messages db @ [new_row u now cid v]\<rparr>) \<or>
            (\<exists>r u'. select_matching_reply (auto_replies db) (new_row u now cid v) (Some r) \<and>
               u' \<noteq> u \<and> (\<forall>m \<in> set (chat_messages db). msg_id m \<noteq> u') \<and>
               db' = update_chats_updated_at now cid
                       (db\<lparr>chat_messages := chat_messages db @
                          [new_row u now cid v,
                           new_row u' now cid (auto_reply_values (new_row u now cid v) r)]\<rparr>))"
    by blast
  from ex_rule have "\<exists>r \<in> set (auto_replies db). where_clause (new_row u now cid v) r"
    by (simp add: where_clause_iff new_row_def)
  then have "\<not> select_matching_reply (auto_replies db) (new_row u now cid v) None"
    by (simp add: select_None_iff)
  with alt ok cid show ?thesis by blast
qed

text \<open>
  Claim C4. An insert of a visitor message always has a completing run while the constraints
  of the table hold. When the text contains the keyword of a rule of the widget, every
  completing run appends exactly two rows: the visitor message, and after it one row of
  the same chat and widget with sender \<open>business\<close>, auto-reply flag true, the keyword of the
  rule that the query delivered as matched keyword, that rule's response as content and
  \<open>now\<close> as creation time. The chat of the message is still there, and \<open>updated_at\<close> of
  every row of it is not before the creation time of the reply.
\<close>

theorem auto_reply_for_winning_rule:
  "(constraints_ok db v \<longrightarrow> (\<exists>ids db'. insert_chat_message now ids db v (Inr db'))) \<and>
   (\<forall>ids db'. insert_chat_message now ids db v (Inr db') \<and> v_sender_type v = ''visitor'' \<and>
      (\<exists>r \<in> set (auto_replies db). ar_widget_id r = v_widget_id v \<and>
         (\<exists>ps ss. lower (v_content v) = ps @ lower (keyword r) @ ss)) \<longrightarrow>
      (\<exists>u cid r u'.
         v_chat_id v = Some cid \<and>
         select_matching_reply (auto_replies db) (new_row u now cid v) (Some r) \<and>
         chat_messages db' = chat_messages db @
           [new_row u now cid v,
            \<lparr>msg_id = u', chat_id = cid, widget_id = v_widget_id v, content = response r,
             sender_type = ''business'', is_auto_reply = Some True,
             auto_reply_keyword = Some (keyword r), created_at = now\<rparr>] \<and>
         (\<exists>c \<in> set (chats db'). c_id c = cid) \<and>
         (\<forall>c \<in> set (chats db'). c_id c = cid \<longrightarrow> now \<le> updated_at c)))"
proof (intro conjI allI impI)
  assume "constraints_ok db v"
  then show "\<exists>ids db'. insert_chat_message now ids db v (Inr db')" by (rule insert_total)
next
  fix ids db'
  assume h: "insert_chat_message now ids db v (Inr db') \<and> v_sender_type v = ''visitor'' \<and>
      (\<exists>r \<in> set (auto_replies db). ar_widget_id r = v_widget_id v \<and>
         (\<exists>ps ss. lower (v_content v) = ps @ lower (keyword r) @ ss))"
  then have ins: "insert_chat_message now ids db v (Inr db')" and vis: "v_sender_type v = ''visitor''"
    and ex_rule: "\<exists>r \<in> set (auto_replies db). ar_widget_id r = v_widget_id v \<and>
         (\<exists>ps ss. lower (v_content v) = ps @ lower (keyword r) @ ss)"
    by simp_all
  from visitor_match_Inr [OF ins vis ex_rule] obtain u cid r u' where
    ok: "constraints_ok db v" and cid: "v_chat_id v = Some cid"
    and sel: "select_matching_reply (auto_replies db) (new_row u now cid v) (Some r)"
    and db': "db' = update_chats_updated_at now cid
                   (db\<lparr>chat_messages := chat_messages db @
                      [new_row u now cid v,
                       new_row u' now cid (auto_reply_values (new_row u now cid v) r)]\<rparr>)"
    by blast
  have msgs: "chat_messages db' = chat_messages db @
           [new_row u now cid v,
            \<lparr>msg_id = u', chat_id = cid, widget_id = v_widget_id v, content = response r,
             sender_type = ''business'', is_auto_reply = Some True,
             auto_reply_keyword = Some (keyword r), created_at = now\<rparr>]"
    by (simp add: db' new_row_def auto_reply_values_def)
  from constraints_ok_chat [OF ok cid] obtain x where x: "x \<in> set (chats db)" "c_id x = cid"
    by blast
  let ?db1 = "db\<lparr>chat_messages := chat_messages db @
                      [new_row u now cid v,
                       new_row u' now cid (auto_reply_values (new_row u now cid v) r)]\<rparr>"
  from x have "x \<in> set (chats ?db1)" by simp
  from updated_row_kept [OF this x(2)]
  have ex: "\<exists>c \<in> set (chats db'). c_id c = cid"
    by (simp only: db')
  have upd: "\<forall>c \<in> set (chats db'). c_id c = cid \<longrightarrow> now \<le> updated_at c"
  proof (intro ballI impI)
    fix c assume "c \<in> set (chats db')" and c: "c_id c = cid"
    then have "c \<in> set (chats (update_chats_updated_at now cid ?db1))"
      by (simp only: db')
    from updated_rows_at_now [OF this c] show "now \<le> updated_at c" by simp
  qed
  from cid sel msgs ex upd
  show "\<exists>u cid r u'.
         v_chat_id v = Some cid \<and>
         select_matching_reply (auto_replies db) (new_row u now cid v) (Some r) \<and>
         chat_messages db' = chat_messages db @
           [new_row u now cid v,
            \<lparr>msg_id = u', chat_id = cid, widget_id = v_widget_id v, content = response r,
             sender_type = ''business'', is_auto_reply = Some True,
             auto_reply_keyword = Some (keyword r), created_at = now\<rparr>] \<and>
         (\<exists>c \<in> set (chats db'). c_id c = cid) \<and>
         (\<forall>c \<in> set (chats db'). c_id c = cid \<longrightarrow> now \<le> updated_at c)"
    by blast
qed

lemma hours_contained:
  "\<exists>ps ss. lower (v_content v_hours) = ps @ lower (keyword rule_hours) @ ss"
proof -
  have "0 < position (lower (keyword rule_hours)) (lower (v_content v_hours))"
    by (simp add: v_hours_def rule_hours_def position_def lower_def lower_char_def)
  then show ?thesis by (simp only: position_pos_iff)
qed

theorem auto_reply_for_winning_rule_witness:
  "insert_chat_message 9 [20, 21] db0 v_hours (Inr db0_hours_sent) \<and>
   v_sender_type v_hours = ''visitor'' \<and>
   rule_hours \<in> set (auto_replies db0) \<and> ar_widget_id rule_hours = v_widget_id v_hours \<and>
   (\<exists>ps ss. lower (v_content v_hours) = ps @ lower (keyword rule_hours) @ ss) \<and>
   (\<exists>u cid r u'.
      v_chat_id v_hours = Some cid \<and>
      select_matching_reply (auto_replies db0) (new_row u 9 cid v_hours) (Some r) \<and>
      chat_messages db0_hours_sent = chat_messages db0 @
        [new_row u 9 cid v_hours,
         \<lparr>msg_id = u', chat_id = cid, widget_id = v_widget_id v_hours, content = response r,
          sender_type = ''business'', is_auto_reply = Some True,
          auto_reply_keyword = Some (keyword r), created_at = 9\<rparr>] \<and>
      (\<exists>c \<in> set (chats db0_hours_sent). c_id c = cid) \<and>
      (\<forall>c \<in> set (chats db0_hours_sent). c_id c = cid \<longrightarrow> 9 \<le> updated_at c))"
proof -
  have vis: "v_sender_type v_hours = ''visitor''" by (simp add: v_hours_def)
  have mem: "rule_hours \<in> set (auto_replies db0)" by (simp add: db0_def)
  have wid: "ar_widget_id rule_hours = v_widget_id v_hours"
    by (simp add: rule_hours_def v_hours_def)
  from mem wid hours_contained
  have "\<exists>r \<in> set (auto_replies db0). ar_widget_id r = v_widget_id v_hours \<and>
         (\<exists>ps ss. lower (v_content v_hours) = ps @ lower (keyword r) @ ss)"
    by (intro bexI [of _ rule_hours] conjI)
  with insert_hours_example vis
  have "insert_chat_message 9 [20, 21] db0 v_hours (Inr db0_hours_sent) \<and>
      v_sender_type v_hours = ''visitor'' \<and>
      (\<exists>r \<in> set (auto_replies db0). ar_widget_id r = v_widget_id v_hours \<and>
         (\<exists>ps ss. lower (v_content v_hours) = ps @ lower (keyword r) @ ss))"
    by (intro conjI)
  from auto_reply_for_winning_rule [of db0 v_hours 9, THEN conjunct2, THEN spec, THEN spec, THEN mp,
      OF this]
    insert_hours_example vis mem wid hours_contained
  show ?thesis by (intro conjI)
qed

lemma new_row_persisted:
  assumes "insert_chat_message now ids db v (Inr db')"
  shows "\<exists>u cid. v_chat_id v = Some cid \<and> new_row u now cid v \<in> set (chat_messages db')"
proof (cases "v_sender_type v = ''visitor''")
  case False
  from insert_not_visitor_Inr [OF assms False] obtain u cid where
    "v_chat_id v = Some cid"
    "db' = db\<lparr>chat_messages := chat_messages db @ [new_row u now cid v]\<rparr>"
    by blast
  then have "v_chat_id v = Some cid \<and> new_row u now cid v \<in> set (chat_messages db')"
    by simp
  then show ?thesis by blast
next
  case True
  from insert_visitor_Inr [OF assms True] obtain u cid where
    cid: "v_chat_id v = Some cid"
    and alt: "(select_matching_reply (auto_replies db) (new_row u now cid v) None \<and>
             db' = db\<lparr>chat_messages := chat_messages db @ [new_row u now cid v]\<rparr>) \<or>
            (\<exists>r u'. select_matching_reply (auto_replies db) (new_row u now cid v) (Some r) \<and>
               u' \<noteq> u \<and> (\<forall>m \<in> set (chat_messages db). msg_id m \<noteq> u') \<and>
               db' = update_chats_updated_at now cid
                       (db\<lparr>chat_messages := chat_messages db @
                          [new_row u now cid v,
                           new_row u' now cid (auto_reply_values (new_row u now cid v) r)]\<rparr>))"
    by blast
  from alt have "new_row u now cid v \<in> set (chat_messages db')"
  proof
    assume "select_matching_reply (auto_replies db) (new_row u now cid v) None \<and>
             db' = db\<lparr>chat_messages := chat_messages db @ [new_row u now cid v]\<rparr>"
    then show ?thesis by simp
  next
    assume "\<exists>r u'. select_matching_reply (auto_replies db) (new_row u now cid v) (Some r) \<and>
               u' \<noteq> u \<and> (\<forall>m \<in> set (chat_messages db). msg_id m \<noteq> u') \<and>
               db' = update_chats_updated_at now cid
                       (db\<lparr>chat_messages := chat_messages db @
                          [new_row u now cid v,
                           new_row u' now cid (auto_reply_values (new_row u now cid v) r)]\<rparr>)"
    then obtain r u' where "db' = update_chats_updated_at now cid
                       (db\<lparr>chat_messages := chat_messages db @
                          [new_row u now cid v,
                           new_row u' now cid (auto_reply_values (new_row u now cid v) r)]\<rparr>)"
      by blast
    then show ?thesis by simp
  qed
  with cid show ?thesis by blast
qed

lemma insert_Inl_cases:
  assumes "insert_chat_message now ids db v (Inl e)"
  shows "e = ConstraintViolation \<or> v_sender_type v = ''visitor''"
proof (rule ccontr)
  assume "\<not> (e = ConstraintViolation \<or> v_sender_type v = ''visitor'')"
  then have ne: "e \<noteq> ConstraintViolation" and nv: "v_sender_type v \<noteq> ''visitor''"
    by simp_all
  from insert_chat_message_cases [OF assms] ne obtain u ids' cid where
    "handle_auto_reply now ids' (db\<lparr>chat_messages := chat_messages db @ [new_row u now cid v]\<rparr>)
          (new_row u now cid v) (Inl e)"
    by auto
  from handle_auto_reply_not_visitor [OF this] nv show False by simp
qed

text \<open>
  Claim C7, amended. The trigger runs inside the insert that fires it and has no handler
  for errors: when \<open>handle_auto_reply\<close> raises for the new row, the insert of the visitor
  message ends with that error, and no database state (no visitor message either) comes out
  of it. A run that completes has stored the message. An insert ends with an error only on
  a violated constraint or, for a visitor message, from the trigger.
\<close>

theorem dispatch_failure_aborts_insert:
  "(\<forall>u cid e. constraints_ok db v \<and> v_chat_id v = Some cid \<and>
       (\<forall>m \<in> set (chat_messages db). msg_id m \<noteq> u) \<and>
       handle_auto_reply now ids (db\<lparr>chat_messages := chat_messages db @ [new_row u now cid v]\<rparr>)
         (new_row u now cid v) (Inl e) \<longrightarrow>
       insert_chat_message now (u # ids) db v (Inl e)) \<and>
   (\<forall>db'. insert_chat_message now ids db v (Inr db') \<longrightarrow>
       (\<exists>u cid. v_chat_id v = Some cid \<and> new_row u now cid v \<in> set (chat_messages db'))) \<and>
   (\<forall>e. insert_chat_message now ids db v (Inl e) \<longrightarrow>
       e = ConstraintViolation \<or> v_sender_type v = ''visitor'')"
proof (intro conjI allI impI)
  fix u cid e
  assume "constraints_ok db v \<and> v_chat_id v = Some cid \<and>
       (\<forall>m \<in> set (chat_messages db). msg_id m \<noteq> u) \<and>
       handle_auto_reply now ids (db\<lparr>chat_messages := chat_messages db @ [new_row u now cid v]\<rparr>)
         (new_row u now cid v) (Inl e)"
  then show "insert_chat_message now (u # ids) db v (Inl e)"
    by (elim conjE) (rule inserted)
next
  fix db' assume "insert_chat_message now ids db v (Inr db')"
  then show "\<exists>u cid. v_chat_id v = Some cid \<and> new_row u now cid v \<in> set (chat_messages db')"
    by (rule new_row_persisted)
next
  fix e assume "insert_chat_message now ids db v (Inl e)"
  then show "e = ConstraintViolation \<or> v_sender_type v = ''visitor''"
    by (rule insert_Inl_cases)
qed

theorem dispatch_failure_aborts_insert_witness:
  "constraints_ok db0 v_hours \<and> v_chat_id v_hours = Some 5 \<and>
   handle_auto_reply 9 [21] (db0\<lparr>chat_messages := chat_messages db0 @ [new_row 20 9 5 v_hours]\<rparr>)
     (new_row 20 9 5 v_hours) (Inl StatementFailed) \<and>
   insert_chat_message 9 [20, 21] db0 v_hours (Inl StatementFailed) \<and>
   v_sender_type v_hours = ''visitor'' \<and>
   insert_chat_message 9 [20, 21] db0 v_hours (Inr db0_hours_sent) \<and>
   (\<exists>u cid. v_chat_id v_hours = Some cid \<and>
      new_row u 9 cid v_hours \<in> set (chat_messages db0_hours_sent))"
proof -
  note t = dispatch_failure_aborts_insert [of db0 v_hours 9 "[21]"]
  note t' = dispatch_failure_aborts_insert [of db0 v_hours 9 "[20, 21]"]
  have ok: "constraints_ok db0 v_hours" and cid: "v_chat_id v_hours = Some 5"
    and vis: "v_sender_type v_hours = ''visitor''"
    and fresh: "\<forall>m \<in> set (chat_messages db0). msg_id m \<noteq> 20"
    by (simp_all add: constraints_ok_def db0_def v_hours_def)
  have h: "handle_auto_reply 9 [21] (db0\<lparr>chat_messages := chat_messages db0 @ [new_row 20 9 5 v_hours]\<rparr>)
     (new_row 20 9 5 v_hours) (Inl StatementFailed)"
    by (rule statement_failed) (simp add: v_hours_def)
  from ok cid fresh h
  have "constraints_ok db0 v_hours \<and> v_chat_id v_hours = Some 5 \<and>
       (\<forall>m \<in> set (chat_messages db0). msg_id m \<noteq> 20) \<and>
       handle_auto_reply 9 [21] (db0\<lparr>chat_messages := chat_messages db0 @ [new_row 20 9 5 v_hours]\<rparr>)
         (new_row 20 9 5 v_hours) (Inl StatementFailed)"
    by (intro conjI)
  from t [THEN conjunct1, THEN spec, THEN spec, THEN spec, THEN mp, OF this]
  have f: "insert_chat_message 9 [20, 21] db0 v_hours (Inl StatementFailed)" .
  from t' [THEN conjunct2, THEN conjunct1, THEN spec, THEN mp, OF insert_hours_example]
  have p: "\<exists>u cid. v_chat_id v_hours = Some cid \<and>
      new_row u 9 cid v_hours \<in> set (chat_messages db0_hours_sent)" .
  from ok cid h f vis insert_hours_example p show ?thesis by (intro conjI)
qed

text \<open>
  Claim C7 as stated fails: the insert of the visitor message \<open>what are your hours?\<close>,
  valid by itself, ends with the error that the trigger raised.
\<close>

theorem dispatch_failure_counterexample:
  "constraints_ok db0 v_hours \<and> v_sender_type v_hours = ''visitor'' \<and>
   handle_auto_reply 9 [21] (db0\<lparr>chat_messages := chat_messages db0 @ [new_row 20 9 5 v_hours]\<rparr>)
     (new_row 20 9 5 v_hours) (Inl StatementFailed) \<and>
   insert_chat_message 9 [20, 21] db0 v_hours (Inl StatementFailed)"
proof -
  have ok: "constraints_ok db0 v_hours" and cid: "v_chat_id v_hours = Some 5"
    and vis: "v_sender_type v_hours = ''visitor''"
    and fresh: "\<forall>m \<in> set (chat_messages db0). msg_id m \<noteq> 20"
    by (simp_all add: constraints_ok_def db0_def v_hours_def)
  have h: "handle_auto_reply 9 [21] (db0\<lparr>chat_messages := chat_messages db0 @ [new_row 20 9 5 v_hours]\<rparr>)
     (new_row 20 9 5 v_hours) (Inl StatementFailed)"
    by (rule statement_failed) (simp add: v_hours_def)
  from inserted [OF ok cid fresh h] ok vis h show ?thesis by (intro conjI)
qed

lemma outbox_addMessage [simp]: "outbox (addMessage p m) = outbox p"
  by (simp add: addMessage_def saveChatHistory_def)

lemma outbox_subscribeToMessages [simp]: "outbox (subscribeToMessages p) = outbox p"
  by (simp add: subscribeToMessages_def split: option.splits)

lemma createChat_outbox:
  "InsertMessage v \<in> set (outbox (createChat p chat_answer)) \<Longrightarrow>
   InsertMessage v \<in> set (outbox p) \<or> (\<not> v_is_auto_reply v \<and> v_auto_reply_keyword v = None)"
  by (cases chat_answer) (auto simp: createChat_def Let_def split: if_splits)

lemma sendMessage_outbox:
  "InsertMessage v \<in> set (outbox (sendMessage p text now chat_answer answer)) \<Longrightarrow>
   InsertMessage v \<in> set (outbox p) \<or> (\<not> v_is_auto_reply v \<and> v_auto_reply_keyword v = None)"
proof -
  assume a: "InsertMessage v \<in> set (outbox (sendMessage p text now chat_answer answer))"
  let ?p1 = "if chatId p = None then createChat p chat_answer else p"
  let ?m = "\<lparr>m_id = None, m_content = trim text, m_sender_type = ''visitor'',
             m_is_auto_reply = Some False, m_auto_reply_keyword = None, m_created_at = now\<rparr>"
  let ?v = "\<lparr>v_chat_id = chatId (addMessage ?p1 ?m), v_widget_id = widgetId (addMessage ?p1 ?m),
             v_content = trim text, v_sender_type = ''visitor'',
             v_is_auto_reply = False, v_auto_reply_keyword = None\<rparr>"
  have ob: "outbox (sendMessage p text now chat_answer answer) =
      (if trim text = [] then outbox p else outbox ?p1 @ [InsertMessage ?v])"
    by (cases answer) (simp_all add: sendMessage_def Let_def)
  show ?thesis
  proof (cases "trim text = []")
    case True
    with a ob show ?thesis by simp
  next
    case False
    from a have "InsertMessage v \<in> set (outbox ?p1 @ [InsertMessage ?v])"
      by (simp only: ob False if_False)
    then have "InsertMessage v \<in> set (outbox ?p1) \<or> InsertMessage v = InsertMessage ?v"
      by (simp only: set_append set_simps Un_iff insert_iff empty_iff) blast
    then show ?thesis
    proof
      assume "InsertMessage v = InsertMessage ?v"
      then have "v = ?v" by (simp only: request.inject)
      then show ?thesis by simp
    next
      assume b: "InsertMessage v \<in> set (outbox ?p1)"
      show ?thesis
      proof (cases "chatId p = None")
        case True
        with b have "InsertMessage v \<in> set (outbox (createChat p chat_answer))" by simp
        then show ?thesis by (rule createChat_outbox)
      next
        case False
        with b show ?thesis by simp
      qed
    qed
  qed
qed

lemma toggleWidget_outbox:
  "InsertMessage v \<in> set (outbox (toggleWidget p forceState now chat_answer)) \<Longrightarrow>
   InsertMessage v \<in> set (outbox p) \<or> (\<not> v_is_auto_reply v \<and> v_auto_reply_keyword v = None)"
proof -
  assume a: "InsertMessage v \<in> set (outbox (toggleWidget p forceState now chat_answer))"
  let ?p2 = "addMessage (p\<lparr>isOpen := True\<rparr>)
               \<lparr>m_id = None, m_content = welcomeMessage (settings (p\<lparr>isOpen := True\<rparr>)),
                m_sender_type = ''business'', m_is_auto_reply = Some False,
                m_auto_reply_keyword = None, m_created_at = now\<rparr>"
  have "outbox (toggleWidget p forceState now chat_answer) = outbox p \<or>
        outbox (toggleWidget p forceState now chat_answer) = outbox (createChat ?p2 chat_answer)"
    by (simp add: toggleWidget_def Let_def)
  then show ?thesis
  proof
    assume "outbox (toggleWidget p forceState now chat_answer) = outbox p"
    with a show ?thesis by simp
  next
    assume "outbox (toggleWidget p forceState now chat_answer) = outbox (createChat ?p2 chat_answer)"
    with a have "InsertMessage v \<in> set (outbox (createChat ?p2 chat_answer))" by simp
    from createChat_outbox [OF this] show ?thesis by simp
  qed
qed

lemma handleSendMessage_outbox:
  "InsertMessage v \<in> set (d_outbox (handleSendMessage d now d_answer)) \<Longrightarrow>
   InsertMessage v \<in> set (d_outbox d) \<or> (\<not> v_is_auto_reply v \<and> v_auto_reply_keyword v = None)"
  by (cases d_answer; cases "activeChat d")
     (auto simp: handleSendMessage_def Let_def split: if_splits)

lemma insert_keeps_keyword_iff_auto_reply:
  assumes v: "(v_auto_reply_keyword v \<noteq> None) = v_is_auto_reply v"
    and db: "\<forall>m \<in> set (chat_messages db).
               (auto_reply_keyword m \<noteq> None) = (is_auto_reply m = Some True)"
    and ins: "insert_chat_message now ids db v (Inr db')"
  shows "\<forall>m \<in> set (chat_messages db').
           (auto_reply_keyword m \<noteq> None) = (is_auto_reply m = Some True)"
proof -
  have row: "(auto_reply_keyword (new_row u now cid v) \<noteq> None) =
             (is_auto_reply (new_row u now cid v) = Some True)" for u cid
    using v by (simp add: new_row_def)
  have reply: "(auto_reply_keyword (new_row u' now cid (auto_reply_values NEW r)) \<noteq> None) =
               (is_auto_reply (new_row u' now cid (auto_reply_values NEW r)) = Some True)"
    for u' cid NEW r
    by (simp add: new_row_def auto_reply_values_def)
  have "(\<exists>u cid. chat_messages db' = chat_messages db @ [new_row u now cid v]) \<or>
        (\<exists>u cid u' r. chat_messages db' = chat_messages db @
           [new_row u now cid v,
            new_row u' now cid (auto_reply_values (new_row u now cid v) r)])"
  proof (cases "v_sender_type v = ''visitor''")
    case False
    from insert_not_visitor_Inr [OF ins False] obtain u cid where
      "db' = db\<lparr>chat_messages := chat_messages db @ [new_row u now cid v]\<rparr>" by blast
    then have "chat_messages db' = chat_messages db @ [new_row u now cid v]" by simp
    then show ?thesis by blast
  next
    case True
    from insert_visitor_Inr [OF ins True] obtain u cid where
      "db' = db\<lparr>chat_messages := chat_messages db @ [new_row u now cid v]\<rparr> \<or>
       (\<exists>r u'. db' = update_chats_updated_at now cid
                       (db\<lparr>chat_messages := chat_messages db @
                          [new_row u now cid v,
                           new_row u' now cid (auto_reply_values (new_row u now cid v) r)]\<rparr>))"
      by blast
    then show ?thesis
    proof
      assume "db' = db\<lparr>chat_messages := chat_messages db @ [new_row u now cid v]\<rparr>"
      then have "chat_messages db' = chat_messages db @ [new_row u now cid v]" by simp
      then show ?thesis by blast
    next
      assume "\<exists>r u'. db' = update_chats_updated_at now cid
                       (db\<lparr>chat_messages := chat_messages db @
                          [new_row u now cid v,
                           new_row u' now cid (auto_reply_values (new_row u now cid v) r)]\<rparr>)"
      then obtain r u' where "db' = update_chats_updated_at now cid
                       (db\<lparr>chat_messages := chat_messages db @
                          [new_row u now cid v,
                           new_row u' now cid (auto_reply_values (new_row u now cid v) r)]\<rparr>)"
        by blast
      then have "chat_messages db' = chat_messages db @
           [new_row u now cid v,
            new_row u' now cid (auto_reply_values (new_row u now cid v) r)]" by simp
      then show ?thesis by blast
    qed
  qed
  then show ?thesis
  proof (elim disjE exE)
    fix u cid assume "chat_messages db' = chat_messages db @ [new_row u now cid v]"
    with db row [of u cid] show ?thesis by simp
  next
    fix u cid u' r
    assume "chat_messages db' = chat_messages db @
           [new_row u now cid v,
            new_row u' now cid (auto_reply_values (new_row u now cid v) r)]"
    with db row [of u cid] reply [of u' cid "new_row u now cid v" r] show ?thesis by simp
  qed
qed

text \<open>
  Claim C6. Every row that an operation stores in \<open>chat_messages\<close> has a matched keyword
  exactly when its auto-reply flag is true. The inserts that \<open>sendMessage\<close>,
  \<open>createChat\<close> (the welcome message), \<open>toggleWidget\<close> and the dashboard's
  \<open>handleSendMessage\<close> issue carry the flag false and no keyword; the insert of the
  trigger carries the flag true and the keyword of the rule; and an insert of values that
  agree in this way, trigger included, keeps the property for all rows of the table.
\<close>

theorem keyword_iff_auto_reply:
  "(\<forall>v. (InsertMessage v \<in> set (outbox (sendMessage p text now chat_answer answer)) \<or>
         InsertMessage v \<in> set (outbox (createChat p chat_answer)) \<or>
         InsertMessage v \<in> set (outbox (toggleWidget p forceState now chat_answer))) \<and>
        InsertMessage v \<notin> set (outbox p) \<longrightarrow>
        \<not> v_is_auto_reply v \<and> v_auto_reply_keyword v = None) \<and>
   (\<forall>v. InsertMessage v \<in> set (d_outbox (handleSendMessage d now d_answer)) \<and>
        InsertMessage v \<notin> set (d_outbox d) \<longrightarrow>
        \<not> v_is_auto_reply v \<and> v_auto_reply_keyword v = None) \<and>
   v_is_auto_reply (auto_reply_values NEW r) \<and>
   v_auto_reply_keyword (auto_reply_values NEW r) = Some (keyword r) \<and>
   (\<forall>v db'. (v_auto_reply_keyword v \<noteq> None) = v_is_auto_reply v \<and>
        (\<forall>m \<in> set (chat_messages db).
           (auto_reply_keyword m \<noteq> None) = (is_auto_reply m = Some True)) \<and>
        insert_chat_message t ids db v (Inr db') \<longrightarrow>
        (\<forall>m \<in> set (chat_messages db').
           (auto_reply_keyword m \<noteq> None) = (is_auto_reply m = Some True)))"
proof (intro conjI allI impI)
  fix v
  assume h: "(InsertMessage v \<in> set (outbox (sendMessage p text now chat_answer answer)) \<or>
         InsertMessage v \<in> set (outbox (createChat p chat_answer)) \<or>
         InsertMessage v \<in> set (outbox (toggleWidget p forceState now chat_answer))) \<and>
        InsertMessage v \<notin> set (outbox p)"
  then have "InsertMessage v \<in> set (outbox p) \<or>
      (\<not> v_is_auto_reply v \<and> v_auto_reply_keyword v = None)"
    using sendMessage_outbox createChat_outbox toggleWidget_outbox by blast
  with h show "\<not> v_is_auto_reply v" and "v_auto_reply_keyword v = None" by blast+
next
  fix v
  assume h: "InsertMessage v \<in> set (d_outbox (handleSendMessage d now d_answer)) \<and>
        InsertMessage v \<notin> set (d_outbox d)"
  then have "InsertMessage v \<in> set (d_outbox d) \<or>
      (\<not> v_is_auto_reply v \<and> v_auto_reply_keyword v = None)"
    using handleSendMessage_outbox by blast
  with h show "\<not> v_is_auto_reply v" and "v_auto_reply_keyword v = None" by blast+
next
  show "v_is_auto_reply (auto_reply_values NEW r)"
    and "v_auto_reply_keyword (auto_reply_values NEW r) = Some (keyword r)"
    by simp_all
next
  fix v db'
  assume "(v_auto_reply_keyword v \<noteq> None) = v_is_auto_reply v \<and>
        (\<forall>m \<in> set (chat_messages db).
           (auto_reply_keyword m \<noteq> None) = (is_auto_reply m = Some True)) \<and>
        insert_chat_message t ids db v (Inr db')"
  then show "\<forall>m \<in> set (chat_messages db').
           (auto_reply_keyword m \<noteq> None) = (is_auto_reply m = Some True)"
    by (elim conjE) (rule insert_keeps_keyword_iff_auto_reply)
qed

theorem keyword_iff_auto_reply_witness:
  "InsertMessage v_hours \<in>
     set (outbox (sendMessage plugin0 ''what are your hours?'' 8 (Inr 5) (Inr 20))) \<and>
   InsertMessage v_hours \<notin> set (outbox plugin0) \<and>
   \<not> v_is_auto_reply v_hours \<and> v_auto_reply_keyword v_hours = None \<and>
   list_all (\<lambda>m. (auto_reply_keyword m \<noteq> None) = (is_auto_reply m = Some True))
     (chat_messages db0) \<and>
   insert_chat_message 9 [20, 21] db0 v_hours (Inr db0_hours_sent) \<and>
   list_all (\<lambda>m. (auto_reply_keyword m \<noteq> None) = (is_auto_reply m = Some True))
     (chat_messages db0_hours_sent)"
proof -
  note t = keyword_iff_auto_reply [of plugin0 "''what are your hours?''" 8 "Inr 5" "Inr 20"
      None _ _ _ _ db0 9 "[20, 21]"]
  have trim: "trim ''what are your hours?'' = ''what are your hours?''"
    by (simp add: trim_def is_space_def)
  have a: "InsertMessage v_hours \<in>
     set (outbox (sendMessage plugin0 ''what are your hours?'' 8 (Inr 5) (Inr 20)))"
    by (simp add: sendMessage_def Let_def trim plugin0_def v_hours_def addMessage_def
        saveChatHistory_def)
  have b: "InsertMessage v_hours \<notin> set (outbox plugin0)" by (simp add: plugin0_def)
  from a b have "(InsertMessage v_hours \<in>
       set (outbox (sendMessage plugin0 ''what are your hours?'' 8 (Inr 5) (Inr 20))) \<or>
     InsertMessage v_hours \<in> set (outbox (createChat plugin0 (Inr 5))) \<or>
     InsertMessage v_hours \<in> set (outbox (toggleWidget plugin0 None 8 (Inr 5)))) \<and>
     InsertMessage v_hours \<notin> set (outbox plugin0)"
    by simp
  from t [THEN conjunct1, THEN spec, THEN mp, OF this]
  have c: "\<not> v_is_auto_reply v_hours \<and> v_auto_reply_keyword v_hours = None" .
  have d: "\<forall>m \<in> set (chat_messages db0).
           (auto_reply_keyword m \<noteq> None) = (is_auto_reply m = Some True)"
    by (simp add: db0_def)
  from c have "(v_auto_reply_keyword v_hours \<noteq> None) = v_is_auto_reply v_hours" by simp
  with d insert_hours_example
  have "(v_auto_reply_keyword v_hours \<noteq> None) = v_is_auto_reply v_hours \<and>
        (\<forall>m \<in> set (chat_messages db0).
           (auto_reply_keyword m \<noteq> None) = (is_auto_reply m = Some True)) \<and>
        insert_chat_message 9 [20, 21] db0 v_hours (Inr db0_hours_sent)"
    by (intro conjI)
  from t [THEN conjunct2, THEN conjunct2, THEN conjunct2, THEN conjunct2, THEN spec, THEN spec,
      THEN mp, OF this]
  have e: "\<forall>m \<in> set (chat_messages db0_hours_sent).
           (auto_reply_keyword m \<noteq> None) = (is_auto_reply m = Some True)" .
  from a b c d e insert_hours_example show ?thesis
    by (simp only: list_all_iff) simp
qed

section \<open>Properties of the widget\<close>

lemma messages_addMessage [simp]: "messages (addMessage p m) = messages p @ [m]"
  by (simp add: addMessage_def saveChatHistory_def)

lemma on_insert_messages:
  "messages (on_insert p row) =
     (if sender_type row = ''business'' \<and>
         \<not> (\<exists>m \<in> set (messages p). m_id m = Some (msg_id row))
      then messages p @ [payload_new row] else messages p)"
  by (simp add: on_insert_def)

lemma m_id_payload_new [simp]: "m_id (payload_new row) = Some (msg_id row)"
  by (simp add: payload_new_def)

lemma m_sender_type_payload_new [simp]: "m_sender_type (payload_new row) = sender_type row"
  by (simp add: payload_new_def)

lemma on_insert_at_most_once:
  assumes "length (filter (\<lambda>m. m_id m = Some i) (messages p)) \<le> 1"
  shows "length (filter (\<lambda>m. m_id m = Some i) (messages (on_insert p row))) \<le> 1"
proof (cases "sender_type row = ''business'' \<and>
         \<not> (\<exists>m \<in> set (messages p). m_id m = Some (msg_id row))")
  case False
  then have "messages (on_insert p row) = messages p"
    by (simp only: on_insert_messages if_False)
  with assms show ?thesis by simp
next
  case True
  then have ms: "messages (on_insert p row) = messages p @ [payload_new row]"
    by (simp add: on_insert_messages)
  show ?thesis
  proof (cases "msg_id row = i")
    case False
    with ms assms show ?thesis by simp
  next
    case eq: True
    from True eq have "\<forall>m \<in> set (messages p). m_id m \<noteq> Some i" by simp
    then have "filter (\<lambda>m. m_id m = Some i) (messages p) = []"
      by (simp add: filter_empty_conv)
    with ms eq show ?thesis by simp
  qed
qed

lemma foldl_on_insert_at_most_once:
  "length (filter (\<lambda>m. m_id m = Some i) (messages p)) \<le> 1 \<Longrightarrow>
   length (filter (\<lambda>m. m_id m = Some i) (messages (foldl on_insert p events))) \<le> 1"
proof (induction events arbitrary: p)
  case Nil
  then show ?case by simp
next
  case (Cons row events)
  from Cons.prems have "length (filter (\<lambda>m. m_id m = Some i) (messages (on_insert p row))) \<le> 1"
    by (rule on_insert_at_most_once)
  from Cons.IH [OF this] show ?case by simp
qed

lemma foldl_on_insert_business_only:
  "filter (\<lambda>m. m_sender_type m \<noteq> ''business'') (messages (foldl on_insert p events)) =
   filter (\<lambda>m. m_sender_type m \<noteq> ''business'') (messages p)"
proof (induction events arbitrary: p)
  case Nil
  show ?case by simp
next
  case (Cons row events)
  have "filter (\<lambda>m. m_sender_type m \<noteq> ''business'') (messages (on_insert p row)) =
        filter (\<lambda>m. m_sender_type m \<noteq> ''business'') (messages p)"
    by (simp add: on_insert_messages)
  with Cons.IH [of "on_insert p row"] show ?case by simp
qed

text \<open>
  Claim C9. The handler of insert events appends the row of an event exactly when the
  sender of the row is \<open>business\<close> and no message of the list has the id of the row;
  otherwise it leaves the plugin as it is. So a second delivery of an event changes
  nothing, after any sequence of events a list that held each id at most once still does,
  and the messages of the list whose sender is not \<open>business\<close> are those it had before:
  an event never adds a visitor message.
\<close>

theorem on_insert_business_once:
  "(sender_type row = ''business'' \<and>
      \<not> (\<exists>m \<in> set (messages p). m_id m = Some (msg_id row)) \<longrightarrow>
      on_insert p row = addMessage p (payload_new row) \<and>
      messages (on_insert p row) = messages p @ [payload_new row]) \<and>
   (sender_type row \<noteq> ''business'' \<or>
      (\<exists>m \<in> set (messages p). m_id m = Some (msg_id row)) \<longrightarrow> on_insert p row = p) \<and>
   on_insert (on_insert p row) row = on_insert p row \<and>
   (length (filter (\<lambda>m. m_id m = Some i) (messages p)) \<le> 1 \<longrightarrow>
      length (filter (\<lambda>m. m_id m = Some i) (messages (foldl on_insert p events))) \<le> 1) \<and>
   filter (\<lambda>m. m_sender_type m \<noteq> ''business'') (messages (foldl on_insert p events)) =
     filter (\<lambda>m. m_sender_type m \<noteq> ''business'') (messages p)"
proof (intro conjI impI)
  assume "sender_type row = ''business'' \<and>
      \<not> (\<exists>m \<in> set (messages p). m_id m = Some (msg_id row))"
  then show "on_insert p row = addMessage p (payload_new row)"
    and "messages (on_insert p row) = messages p @ [payload_new row]"
    by (simp_all add: on_insert_def)
next
  assume "sender_type row \<noteq> ''business'' \<or>
      (\<exists>m \<in> set (messages p). m_id m = Some (msg_id row))"
  then show "on_insert p row = p" by (auto simp: on_insert_def)
next
  show "on_insert (on_insert p row) row = on_insert p row"
    by (simp add: on_insert_def)
next
  assume "length (filter (\<lambda>m. m_id m = Some i) (messages p)) \<le> 1"
  then show "length (filter (\<lambda>m. m_id m = Some i) (messages (foldl on_insert p events))) \<le> 1"
    by (rule foldl_on_insert_at_most_once)
next
  show "filter (\<lambda>m. m_sender_type m \<noteq> ''business'') (messages (foldl on_insert p events)) =
     filter (\<lambda>m. m_sender_type m \<noteq> ''business'') (messages p)"
    by (rule foldl_on_insert_business_only)
qed

theorem on_insert_business_once_witness:
  "sender_type row_reply_hours = ''business'' \<and>
   \<not> (\<exists>m \<in> set (messages plugin0). m_id m = Some (msg_id row_reply_hours)) \<and>
   messages (on_insert plugin0 row_reply_hours) = [payload_new row_reply_hours] \<and>
   on_insert (on_insert plugin0 row_reply_hours) row_reply_hours =
     on_insert plugin0 row_reply_hours \<and>
   sender_type row_visitor_hours \<noteq> ''business'' \<and>
   on_insert plugin0 row_visitor_hours = plugin0 \<and>
   length (filter (\<lambda>m. m_id m = Some 21) (messages plugin0)) \<le> 1 \<and>
   length (filter (\<lambda>m. m_id m = Some 21)
     (messages (foldl on_insert plugin0
        [row_reply_hours, row_visitor_hours, row_reply_hours]))) \<le> 1"
proof -
  note t1 = on_insert_business_once [of row_reply_hours plugin0 21
      "[row_reply_hours, row_visitor_hours, row_reply_hours]"]
  note t2 = on_insert_business_once [of row_visitor_hours plugin0 21
      "[row_reply_hours, row_visitor_hours, row_reply_hours]"]
  have b: "sender_type row_reply_hours = ''business''"
    by (simp add: row_reply_hours_def)
  have n: "\<not> (\<exists>m \<in> set (messages plugin0). m_id m = Some (msg_id row_reply_hours))"
    by (simp add: plugin0_def)
  from b n have "sender_type row_reply_hours = ''business'' \<and>
      \<not> (\<exists>m \<in> set (messages plugin0). m_id m = Some (msg_id row_reply_hours))" ..
  from t1 [THEN conjunct1, THEN mp, OF this]
  have a: "messages (on_insert plugin0 row_reply_hours) = [payload_new row_reply_hours]"
    by (simp add: plugin0_def)
  from t1 have i: "on_insert (on_insert plugin0 row_reply_hours) row_reply_hours =
     on_insert plugin0 row_reply_hours"
    by (rule conjunct2 [THEN conjunct2, THEN conjunct1])
  have v: "sender_type row_visitor_hours \<noteq> ''business''"
    by (simp add: row_visitor_hours_def v_hours_def)
  then have "sender_type row_visitor_hours \<noteq> ''business'' \<or>
      (\<exists>m \<in> set (messages plugin0). m_id m = Some (msg_id row_visitor_hours))" ..
  from t2 [THEN conjunct2, THEN conjunct1, THEN mp, OF this]
  have s: "on_insert plugin0 row_visitor_hours = plugin0" .
  have l: "length (filter (\<lambda>m. m_id m = Some 21) (messages plugin0)) \<le> 1"
    by (simp add: plugin0_def)
  from t1 [THEN conjunct2, THEN conjunct2, THEN conjunct2, THEN conjunct1, THEN mp, OF l]
  have f: "length (filter (\<lambda>m. m_id m = Some 21)
     (messages (foldl on_insert plugin0
        [row_reply_hours, row_visitor_hours, row_reply_hours]))) \<le> 1" .
  from b n a i v s l f show ?thesis by (intro conjI)
qed

text \<open>
  Claim C10. When the query for the settings of the widget fails, \<open>fetchWidgetSettings\<close>
  returns the plugin with the fixed default settings and no error; \<open>init\<close>, the script
  being loaded, goes on to its end with these settings and marks the plugin as
  initialized.
\<close>

theorem fetch_failure_default_settings:
  "settings (fetchWidgetSettings p (Inl e)) =
     \<lparr>primaryColor = ''#0284c7'', headerText = ''Chat with us'',
      welcomeMessage = ''Hello! How can we help you today?'', logoUrl = None\<rparr> \<and>
   settings (init p True (Inl e)) =
     \<lparr>primaryColor = ''#0284c7'', headerText = ''Chat with us'',
      welcomeMessage = ''Hello! How can we help you today?'', logoUrl = None\<rparr> \<and>
   isInitialized (init p True (Inl e))"
  by (simp add: fetchWidgetSettings_def init_def loadChatHistory_def subscribeToMessages_def
      Let_def split: option.splits)

lemma createChat_userInfo [simp]:
  "userInfo_name (createChat p a) = userInfo_name p"
  "userInfo_email (createChat p a) = userInfo_email p"
  "userInfo_chatCount (createChat p a) = userInfo_chatCount p"
  "prompts (createChat p a) = prompts p"
  by (cases a; simp add: createChat_def Let_def subscribeToMessages_def addMessage_def
        saveChatHistory_def split: option.splits)+

lemma addMessage_userInfo [simp]:
  "userInfo_name (addMessage p m) = userInfo_name p"
  "userInfo_email (addMessage p m) = userInfo_email p"
  "userInfo_chatCount (addMessage p m) = userInfo_chatCount p"
  "prompts (addMessage p m) = prompts p"
  "chatId (addMessage p m) = chatId p"
  by (simp_all add: addMessage_def saveChatHistory_def)

lemma sendMessage_userInfo [simp]:
  "userInfo_name (sendMessage p text now chat_answer answer) = userInfo_name p"
  "userInfo_email (sendMessage p text now chat_answer answer) = userInfo_email p"
  by (cases answer; simp add: sendMessage_def Let_def)+

lemma sendMessage_chatCount:
  "userInfo_chatCount (sendMessage p text now chat_answer answer) =
     (if trim text \<noteq> [] \<and> (\<exists>i. answer = Inr i) then userInfo_chatCount p + 1
      else userInfo_chatCount p)"
  by (cases answer; simp add: sendMessage_def Let_def)

lemma sendMessage_prompts:
  "prompts (sendMessage p text now chat_answer answer) =
     (if trim text \<noteq> [] \<and> (\<exists>i. answer = Inr i) \<and> 5 \<le> userInfo_chatCount p + 1 \<and>
         \<not> truthy (userInfo_name p) \<and> \<not> truthy (userInfo_email p)
      then prompts p + 1 else prompts p)"
  by (cases answer; simp add: sendMessage_def Let_def)

lemma sendMessages_prompts_unidentified:
  "\<not> truthy (userInfo_name p) \<Longrightarrow> \<not> truthy (userInfo_email p) \<Longrightarrow>
   prompts (sendMessages p sends) =
     prompts p +
     ((userInfo_chatCount p +
         length (filter (\<lambda>(text, now, chat_answer, answer).
                   trim text \<noteq> [] \<and> (\<exists>i. answer = Inr i)) sends) - 4) -
      (userInfo_chatCount p - 4))"
proof (induction sends arbitrary: p)
  case Nil
  then show ?case by simp
next
  case (Cons s sends)
  obtain tx now chat_answer answer where s: "s = (tx, now, chat_answer, answer)"
    by (cases s) auto
  let ?p = "sendMessage p tx now chat_answer answer"
  from Cons.prems have "\<not> truthy (userInfo_name ?p)" "\<not> truthy (userInfo_email ?p)"
    by simp_all
  from Cons.IH [OF this] Cons.prems show ?case
    by (simp add: s sendMessage_prompts sendMessage_chatCount)
qed

lemma sendMessages_prompts_identified:
  "truthy (userInfo_name p) \<or> truthy (userInfo_email p) \<Longrightarrow>
   prompts (sendMessages p sends) = prompts p"
proof (induction sends arbitrary: p)
  case Nil
  then show ?case by simp
next
  case (Cons s sends)
  obtain tx now chat_answer answer where s: "s = (tx, now, chat_answer, answer)"
    by (cases s) auto
  let ?p = "sendMessage p tx now chat_answer answer"
  from Cons.prems have "truthy (userInfo_name ?p) \<or> truthy (userInfo_email ?p)"
    by simp
  from Cons.IH [OF this] Cons.prems show ?case
    by (auto simp: s sendMessage_prompts)
qed

lemma submit_user_info_fields:
  assumes "trim nameInput \<noteq> []" and "trim emailInput \<noteq> []"
  shows "userInfo_name (submit_user_info p nameInput emailInput t threw) = Some (trim nameInput)"
    and "userInfo_email (submit_user_info p nameInput emailInput t threw) = Some (trim emailInput)"
    and "outbox (submit_user_info p nameInput emailInput t threw) =
           outbox p @ [UpdateChatVisitor (chatId p) (trim nameInput) (trim emailInput)]"
    and "prompts (submit_user_info p nameInput emailInput t threw) = prompts p"
  using assms by (simp_all add: submit_user_info_def Let_def)

lemma update_chat_visitor_fields:
  assumes "c \<in> set (chats (update_chat_visitor t (Some cid) name email db))" and "c_id c = cid"
  shows "visitor_name c = Some name \<and> visitor_email c = Some email"
proof -
  let ?f = "\<lambda>c. if Some (c_id c) = Some cid
                 then update_updated_at_column t
                        (c\<lparr>visitor_name := Some name, visitor_email := Some email\<rparr>)
                 else c"
  from assms(1) have "c \<in> ?f ` set (chats db)"
    by (simp add: update_chat_visitor_def)
  then obtain x where c: "c = ?f x" by (rule imageE)
  show ?thesis
  proof (cases "c_id x = cid")
    case True
    with c have "c = update_updated_at_column t
                        (x\<lparr>visitor_name := Some name, visitor_email := Some email\<rparr>)"
      by simp
    then show ?thesis by (simp add: update_updated_at_column_def)
  next
    case False
    with c have "c = x" by simp
    with False assms(2) show ?thesis by simp
  qed
qed

lemma sendMessages_chatCount:
  "userInfo_chatCount (sendMessages p sends) =
     userInfo_chatCount p +
     length (filter (\<lambda>(text, now, chat_answer, answer).
               trim text \<noteq> [] \<and> (\<exists>i. answer = Inr i)) sends)"
proof (induction sends arbitrary: p)
  case Nil
  show ?case by simp
next
  case (Cons s sends)
  obtain tx now chat_answer answer where s: "s = (tx, now, chat_answer, answer)"
    by (cases s) auto
  from Cons.IH [of "sendMessage p tx now chat_answer answer"] show ?case
    by (simp add: s sendMessage_chatCount)
qed

lemma six_sends_accepted:
  "length (filter (\<lambda>(text, now, chat_answer, answer).
             trim text \<noteq> [] \<and> (\<exists>i. answer = Inr i)) six_sends) = 6"
  by (simp add: six_sends_def trim_def is_space_def)

lemma five_sends_accepted:
  "length (filter (\<lambda>(text, now, chat_answer, answer).
             trim text \<noteq> [] \<and> (\<exists>i. answer = Inr i)) (butlast six_sends)) = 5"
  by (simp add: six_sends_def trim_def is_space_def)

lemma plugin0_unidentified:
  "\<not> truthy (userInfo_name plugin0)" "\<not> truthy (userInfo_email plugin0)"
  "userInfo_chatCount plugin0 = 0" "prompts plugin0 = 0"
  by (simp_all add: plugin0_def truthy_def)

text \<open>
  Claim C8, amended. A call of \<open>sendMessage\<close> triggers the identification prompt exactly
  when the backend accepted a non-empty message, the count of accepted messages has
  thereby become 5 or more, and neither a name nor an email is captured. So in a session
  without identification the first prompt comes with the message that brings the count to
  5, and each accepted message after it triggers one more. Submitting the form with a
  non-empty name and a non-empty email captures both, sends the update of the visitor name
  and email of the chat, which sets these two fields of the chat, and no message sent
  afterwards triggers a prompt.
\<close>

theorem identification_prompt:
  "prompts (sendMessage p text now chat_answer answer) =
     (if trim text \<noteq> [] \<and> (\<exists>i. answer = Inr i) \<and> 5 \<le> userInfo_chatCount p + 1 \<and>
         \<not> truthy (userInfo_name p) \<and> \<not> truthy (userInfo_email p)
      then prompts p + 1 else prompts p) \<and>
   userInfo_chatCount (sendMessage p text now chat_answer answer) =
     (if trim text \<noteq> [] \<and> (\<exists>i. answer = Inr i) then userInfo_chatCount p + 1
      else userInfo_chatCount p) \<and>
   (\<not> truthy (userInfo_name p) \<and> \<not> truthy (userInfo_email p) \<longrightarrow>
      prompts (sendMessages p sends) =
        prompts p +
        ((userInfo_chatCount p +
            length (filter (\<lambda>(text, now, chat_answer, answer).
                      trim text \<noteq> [] \<and> (\<exists>i. answer = Inr i)) sends) - 4) -
         (userInfo_chatCount p - 4))) \<and>
   (trim nameInput \<noteq> [] \<and> trim emailInput \<noteq> [] \<longrightarrow>
      userInfo_name (submit_user_info p nameInput emailInput t threw) = Some (trim nameInput) \<and>
      userInfo_email (submit_user_info p nameInput emailInput t threw) = Some (trim emailInput) \<and>
      outbox (submit_user_info p nameInput emailInput t threw) =
        outbox p @ [UpdateChatVisitor (chatId p) (trim nameInput) (trim emailInput)] \<and>
      prompts (sendMessages (submit_user_info p nameInput emailInput t threw) sends) =
        prompts p) \<and>
   (\<forall>c \<in> set (chats (update_chat_visitor t' (Some cid) name email db)).
      c_id c = cid \<longrightarrow> visitor_name c = Some name \<and> visitor_email c = Some email)"
proof (intro conjI impI ballI)
  show "prompts (sendMessage p text now chat_answer answer) =
     (if trim text \<noteq> [] \<and> (\<exists>i. answer = Inr i) \<and> 5 \<le> userInfo_chatCount p + 1 \<and>
         \<not> truthy (userInfo_name p) \<and> \<not> truthy (userInfo_email p)
      then prompts p + 1 else prompts p)"
    by (rule sendMessage_prompts)
next
  show "userInfo_chatCount (sendMessage p text now chat_answer answer) =
     (if trim text \<noteq> [] \<and> (\<exists>i. answer = Inr i) then userInfo_chatCount p + 1
      else userInfo_chatCount p)"
    by (rule sendMessage_chatCount)
next
  assume "\<not> truthy (userInfo_name p) \<and> \<not> truthy (userInfo_email p)"
  then show "prompts (sendMessages p sends) =
        prompts p +
        ((userInfo_chatCount p +
            length (filter (\<lambda>(text, now, chat_answer, answer).
                      trim text \<noteq> [] \<and> (\<exists>i. answer = Inr i)) sends) - 4) -
         (userInfo_chatCount p - 4))"
    by (elim conjE) (rule sendMessages_prompts_unidentified)
next
  assume h: "trim nameInput \<noteq> [] \<and> trim emailInput \<noteq> []"
  then have n: "trim nameInput \<noteq> []" and e: "trim emailInput \<noteq> []" by simp_all
  note f = submit_user_info_fields [OF n e, of p t threw]
  show "userInfo_name (submit_user_info p nameInput emailInput t threw) = Some (trim nameInput)"
    by (rule f(1))
  show "userInfo_email (submit_user_info p nameInput emailInput t threw) = Some (trim emailInput)"
    by (rule f(2))
  show "outbox (submit_user_info p nameInput emailInput t threw) =
        outbox p @ [UpdateChatVisitor (chatId p) (trim nameInput) (trim emailInput)]"
    by (rule f(3))
  from n f(1) have "truthy (userInfo_name (submit_user_info p nameInput emailInput t threw))"
    by (simp add: truthy_def)
  then have "truthy (userInfo_name (submit_user_info p nameInput emailInput t threw)) \<or>
             truthy (userInfo_email (submit_user_info p nameInput emailInput t threw))" ..
  from sendMessages_prompts_identified [OF this] f(4)
  show "prompts (sendMessages (submit_user_info p nameInput emailInput t threw) sends) =
        prompts p"
    by simp
next
  fix c
  assume "c \<in> set (chats (update_chat_visitor t' (Some cid) name email db))" and "c_id c = cid"
  then have "visitor_name c = Some name \<and> visitor_email c = Some email"
    by (rule update_chat_visitor_fields)
  then show "visitor_name c = Some name" and "visitor_email c = Some email" by simp_all
qed

theorem identification_prompt_witness:
  "\<not> truthy (userInfo_name plugin0) \<and> \<not> truthy (userInfo_email plugin0) \<and>
   userInfo_chatCount (sendMessages plugin0 (butlast six_sends)) = 5 \<and>
   prompts (sendMessages plugin0 (butlast six_sends)) = 1 \<and>
   trim ''Ann'' \<noteq> [] \<and> trim ''ann@example.com'' \<noteq> [] \<and>
   userInfo_name (submit_user_info plugin0 ''Ann'' ''ann@example.com'' 7 False) = Some ''Ann'' \<and>
   userInfo_email (submit_user_info plugin0 ''Ann'' ''ann@example.com'' 7 False) =
     Some ''ann@example.com'' \<and>
   outbox (submit_user_info plugin0 ''Ann'' ''ann@example.com'' 7 False) =
     [UpdateChatVisitor (Some 5) ''Ann'' ''ann@example.com''] \<and>
   prompts (sendMessages (submit_user_info plugin0 ''Ann'' ''ann@example.com'' 7 False)
     six_sends) = 0 \<and>
   (\<exists>c \<in> set (chats (update_chat_visitor 9 (Some 5) ''Ann'' ''ann@example.com'' db0)).
      c_id c = 5 \<and> visitor_name c = Some ''Ann'' \<and> visitor_email c = Some ''ann@example.com'')"
proof -
  note t1 = identification_prompt [of plugin0 _ _ _ _ "butlast six_sends"]
  note t2 = identification_prompt [of plugin0 _ _ _ _ six_sends "''Ann''" "''ann@example.com''"
      7 False 9 5 "''Ann''" "''ann@example.com''" db0]
  have u: "\<not> truthy (userInfo_name plugin0) \<and> \<not> truthy (userInfo_email plugin0)"
    by (simp add: plugin0_unidentified)
  from t1 [THEN conjunct2, THEN conjunct2, THEN conjunct1, THEN mp, OF u]
  have p5: "prompts (sendMessages plugin0 (butlast six_sends)) = 1"
    by (simp only: five_sends_accepted plugin0_unidentified)
  have c5: "userInfo_chatCount (sendMessages plugin0 (butlast six_sends)) = 5"
    by (simp only: sendMessages_chatCount five_sends_accepted plugin0_unidentified)
  have tr: "trim ''Ann'' = ''Ann''" "trim ''ann@example.com'' = ''ann@example.com''"
    by (simp_all add: trim_def is_space_def)
  then have ne: "trim ''Ann'' \<noteq> [] \<and> trim ''ann@example.com'' \<noteq> []" by simp
  from t2 [THEN conjunct2, THEN conjunct2, THEN conjunct2, THEN conjunct1, THEN mp, OF ne]
  have s: "userInfo_name (submit_user_info plugin0 ''Ann'' ''ann@example.com'' 7 False) =
      Some ''Ann'' \<and>
    userInfo_email (submit_user_info plugin0 ''Ann'' ''ann@example.com'' 7 False) =
      Some ''ann@example.com'' \<and>
    outbox (submit_user_info plugin0 ''Ann'' ''ann@example.com'' 7 False) =
      [UpdateChatVisitor (Some 5) ''Ann'' ''ann@example.com''] \<and>
    prompts (sendMessages (submit_user_info plugin0 ''Ann'' ''ann@example.com'' 7 False)
      six_sends) = 0"
    by (simp add: tr plugin0_unidentified) (simp add: plugin0_def)
  let ?c = "\<lparr>c_id = 5, c_widget_id = 3, visitor_name = Some ''Ann'',
             visitor_email = Some ''ann@example.com'', visitor_page = Some ''/'',
             c_created_at = 1, updated_at = 9\<rparr>"
  have m: "?c \<in> set (chats (update_chat_visitor 9 (Some 5) ''Ann'' ''ann@example.com'' db0))"
    by (simp add: update_chat_visitor_def update_updated_at_column_def db0_def)
  from t2 [THEN conjunct2, THEN conjunct2, THEN conjunct2, THEN conjunct2, THEN bspec, OF m]
  have "visitor_name ?c = Some ''Ann'' \<and> visitor_email ?c = Some ''ann@example.com''"
    by simp
  with m have x: "\<exists>c \<in> set (chats (update_chat_visitor 9 (Some 5) ''Ann'' ''ann@example.com'' db0)).
      c_id c = 5 \<and> visitor_name c = Some ''Ann'' \<and> visitor_email c = Some ''ann@example.com''"
    by (intro bexI [of _ ?c]) simp_all
  from u p5 c5 ne s x show ?thesis by (intro conjI) simp_all
qed

text \<open>
  Claim C8 as stated fails: six messages sent and accepted in a session without
  identification trigger the prompt twice, with the fifth and with the sixth message.
\<close>

theorem identification_prompt_counterexample:
  "\<not> truthy (userInfo_name plugin0) \<and> \<not> truthy (userInfo_email plugin0) \<and>
   userInfo_chatCount plugin0 = 0 \<and> prompts plugin0 = 0 \<and>
   userInfo_chatCount (sendMessages plugin0 six_sends) = 6 \<and>
   prompts (sendMessages plugin0 six_sends) = 2"
proof -
  note u = plugin0_unidentified
  have "prompts (sendMessages plugin0 six_sends) = 2"
    by (simp only: sendMessages_prompts_unidentified [OF u(1) u(2)] six_sends_accepted u)
  moreover have "userInfo_chatCount (sendMessages plugin0 six_sends) = 6"
    by (simp only: sendMessages_chatCount six_sends_accepted u)
  ultimately show ?thesis using u by simp
qed

end
